theory Spec2Isabelle
  imports Complex_Main "HOL-Library.Product_Lexorder" "HOL-Library.Sublist"
begin

section \<open>Calendar dates\<close>

text \<open>
  A \<^verbatim>\<open>datetime.date\<close> is the triple (year, month, day). Python compares dates
  by year, then month, then day, which is the lexicographic order of the triple.
  The last date that \<^verbatim>\<open>datetime\<close> holds is 9999-12-31: adding to a date raises when
  the result would lie past it.
\<close>

type_synonym date = "nat \<times> nat \<times> nat"

definition year :: "date \<Rightarrow> nat" where
  "year d = fst d"

definition month :: "date \<Rightarrow> nat" where
  "month d = fst (snd d)"

definition day :: "date \<Rightarrow> nat" where
  "day d = snd (snd d)"

definition isleap :: "nat \<Rightarrow> bool" where
  "isleap y = (y mod 4 = 0 \<and> (y mod 400 = 0 \<or> y mod 100 \<noteq> 0))"

text \<open>\<^verbatim>\<open>calendar.monthrange(y, m)[1]\<close>, the number of days of a month.\<close>

definition days_in_month :: "nat \<Rightarrow> nat \<Rightarrow> nat" where
  "days_in_month y m =
     (if m = 2 then (if isleap y then 29 else 28)
      else if m = 4 \<or> m = 6 \<or> m = 9 \<or> m = 11 then 30 else 31)"

definition valid_date :: "date \<Rightarrow> bool" where
  "valid_date d =
     (1 \<le> month d \<and> month d \<le> 12 \<and> 1 \<le> day d \<and> day d \<le> days_in_month (year d) (month d))"

text \<open>
  The date one calendar month later: the next month, the day of the month kept and
  cut down to the length of that month. A month of a date is at most 12, so the
  first branch is December. The date one calendar day later and one calendar day
  earlier (the latter for a date after 0001-01-01, the first that \<^verbatim>\<open>datetime\<close> holds).
\<close>

definition month_after :: "date \<Rightarrow> date" where
  "month_after d =
     (if 12 \<le> month d
      then (year d + 1, 1, min (day d) (days_in_month (year d + 1) 1))
      else (year d, month d + 1, min (day d) (days_in_month (year d) (month d + 1))))"

definition day_after :: "date \<Rightarrow> date" where
  "day_after d =
     (if day d < days_in_month (year d) (month d) then (year d, month d, day d + 1)
      else if month d < 12 then (year d, month d + 1, 1)
      else (year d + 1, 1, 1))"

definition sub_days1 :: "date \<Rightarrow> date" where
  "sub_days1 d =
     (if 1 < day d then (year d, month d, day d - 1)
      else if 1 < month d then (year d, month d - 1, days_in_month (year d) (month d - 1))
      else (year d - 1, 12, 31))"

text \<open>
  \<^verbatim>\<open>d + relativedelta(months=1)\<close> and \<^verbatim>\<open>d + relativedelta(days=1)\<close>. When the
  result would be in the year 10000, the first raises ValueError (from
  \<^verbatim>\<open>date.replace\<close>, year out of range) and the second OverflowError (from the
  addition of the \<^verbatim>\<open>timedelta\<close>).
\<close>

datatype error = TypeError | ValueError | OverflowError

definition MAXYEAR :: nat where
  "MAXYEAR = 9999"

definition add_months1 :: "date \<Rightarrow> error + date" where
  "add_months1 d =
     (if MAXYEAR < year (month_after d) then Inl ValueError else Inr (month_after d))"

definition add_days1 :: "date \<Rightarrow> error + date" where
  "add_days1 d =
     (if MAXYEAR < year (day_after d) then Inl OverflowError else Inr (day_after d))"


section \<open>The date-range planner\<close>

text \<open>
  \<^verbatim>\<open>_create_list_dates_for_timeperiod\<close>. The body of its \<^verbatim>\<open>while\<close> loop appends
  \<^verbatim>\<open>date_to_use\<close> and advances it by a month when
  \<^verbatim>\<open>timeperiod_per_file == "monthly"\<close> and by a day for every other value. An
  exception of that addition leaves the function, and the list built so far is
  lost.
\<close>

definition next_date :: "string \<Rightarrow> date \<Rightarrow> error + date" where
  "next_date timeperiod_per_file date_to_use =
     (if timeperiod_per_file = ''monthly'' then add_months1 date_to_use
      else add_days1 date_to_use)"

text \<open>The same step on the calendar alone, with no last year.\<close>

definition date_after :: "string \<Rightarrow> date \<Rightarrow> date" where
  "date_after timeperiod_per_file d =
     (if timeperiod_per_file = ''monthly'' then month_after d else day_after d)"

lemma days_in_month_le: "days_in_month y m \<le> 31"
  by (simp add: days_in_month_def)

lemma date_after_measure:
  assumes "c \<le> e"
  shows "((date_after tp c, e, tp), (c, e, tp))
           \<in> measures [\<lambda>(c, e, tp). Suc (year e) - year c,
                        \<lambda>(c, e, tp). 13 - month c,
                        \<lambda>(c, e, tp). 32 - day c]"
proof -
  obtain y m d where c: "c = (y, m, d)" by (cases c) auto
  obtain ye me de where e: "e = (ye, me, de)" by (cases e) auto
  from assms have yle: "y \<le> ye" by (auto simp: c e)
  have dim: "days_in_month y m \<le> 31" by (rule days_in_month_le)
  show ?thesis
    using yle dim
    by (auto simp: c e date_after_def month_after_def day_after_def year_def month_def day_def)
qed

lemma next_date_Inr: "next_date tp c = Inr n \<Longrightarrow> n = date_after tp c"
  by (auto simp: next_date_def date_after_def add_months1_def add_days1_def split: if_splits)

function dates_loop :: "date \<Rightarrow> date \<Rightarrow> string \<Rightarrow> error + date list" where
  "dates_loop date_to_use date_end timeperiod_per_file =
     (if date_to_use \<le> date_end
      then (case next_date timeperiod_per_file date_to_use of
              Inl err \<Rightarrow> Inl err
            | Inr date_next \<Rightarrow>
                (case dates_loop date_next date_end timeperiod_per_file of
                   Inl err \<Rightarrow> Inl err
                 | Inr list_dates \<Rightarrow> Inr (date_to_use # list_dates)))
      else Inr [])"
  by pat_completeness auto
termination
proof (relation "measures [\<lambda>(c, e, tp). Suc (year e) - year c,
                           \<lambda>(c, e, tp). 13 - month c,
                           \<lambda>(c, e, tp). 32 - day c]", goal_cases)
  case 1
  show ?case by simp
next
  case (2 c e tp n)
  from 2(2) have "n = date_after tp c" by (rule next_date_Inr)
  with date_after_measure [OF 2(1)] show ?case by simp
qed

declare dates_loop.simps [simp del]

text \<open>
  With \<^verbatim>\<open>date_end=None\<close> the source assigns \<^verbatim>\<open>datetime.datetime.utcnow().date\<close>, the
  method and not its result, and the first comparison of the loop raises TypeError.
\<close>

definition create_list_dates_for_timeperiod ::
  "date \<Rightarrow> date option \<Rightarrow> string \<Rightarrow> error + date list" where
  "create_list_dates_for_timeperiod date_start date_end timeperiod_per_file =
     (case date_end of
        None \<Rightarrow> Inl TypeError
      | Some e \<Rightarrow> dates_loop date_start e timeperiod_per_file)"

text \<open>
  The dates that the loop collects when no step leaves the calendar of
  \<^verbatim>\<open>datetime\<close>: the start date and the dates after it, up to the end date.
\<close>

function dates_from :: "date \<Rightarrow> date \<Rightarrow> string \<Rightarrow> date list" where
  "dates_from c e tp = (if c \<le> e then c # dates_from (date_after tp c) e tp else [])"
  by pat_completeness auto
termination
proof (relation "measures [\<lambda>(c, e, tp). Suc (year e) - year c,
                           \<lambda>(c, e, tp). 13 - month c,
                           \<lambda>(c, e, tp). 32 - day c]", goal_cases)
  case 1
  show ?case by simp
next
  case (2 c e tp)
  then show ?case by (rule date_after_measure)
qed

declare dates_from.simps [simp del]

section \<open>Strings and paths\<close>

text \<open>\<^verbatim>\<open>str(n)\<close> for a natural number, and \<^verbatim>\<open>s.zfill(w)\<close>.\<close>

fun str_nat :: "nat \<Rightarrow> string" where
  "str_nat n =
     (if n < 10 then [''0123456789'' ! n]
      else str_nat (n div 10) @ [''0123456789'' ! (n mod 10)])"

declare str_nat.simps [simp del]

definition zfill :: "nat \<Rightarrow> string \<Rightarrow> string" where
  "zfill w s = replicate (w - length s) (CHR ''0'') @ s"

text \<open>
  \<^verbatim>\<open>date_obj.strftime("%Y-%m")\<close> and \<^verbatim>\<open>date_obj.strftime("%Y-%m-%d")\<close>: the year as
  the C library prints it, without padding (four digits from the year 1000 on),
  month and day on two digits.
\<close>

definition strftime_Y_m :: "date \<Rightarrow> string" where
  "strftime_Y_m d = str_nat (year d) @ ''-'' @ zfill 2 (str_nat (month d))"

definition strftime_Y_m_d :: "date \<Rightarrow> string" where
  "strftime_Y_m_d d = strftime_Y_m d @ ''-'' @ zfill 2 (str_nat (day d))"

text \<open>\<^verbatim>\<open>os.path.join(a, b)\<close> of \<^verbatim>\<open>posixpath\<close>.\<close>

definition os_path_join :: "string \<Rightarrow> string \<Rightarrow> string" where
  "os_path_join a b =
     (if b \<noteq> [] \<and> hd b = CHR ''/'' then b
      else if a = [] \<or> last a = CHR ''/'' then a @ b
      else a @ ''/'' @ b)"

text \<open>\<^verbatim>\<open>s.split(sep)\<close> for a one-character separator, and \<^verbatim>\<open>sep.join(parts)\<close>.\<close>

fun split_sep :: "char \<Rightarrow> string \<Rightarrow> string list" where
  "split_sep sep [] = [[]]"
| "split_sep sep (c # cs) =
     (if c = sep then [] # split_sep sep cs
      else (case split_sep sep cs of
              [] \<Rightarrow> [[c]]
            | w # ws \<Rightarrow> (c # w) # ws))"

fun join_sep :: "string \<Rightarrow> string list \<Rightarrow> string" where
  "join_sep sep [] = []"
| "join_sep sep [w] = w"
| "join_sep sep (w # ws) = w @ sep @ join_sep sep ws"

text \<open>\<^verbatim>\<open>s.split(sep)[0]\<close> and the slice \<^verbatim>\<open>parts[-n:]\<close>.\<close>

definition split_head :: "char \<Rightarrow> string \<Rightarrow> string" where
  "split_head sep s = takeWhile (\<lambda>c. c \<noteq> sep) s"

definition last_n :: "nat \<Rightarrow> 'a list \<Rightarrow> 'a list" where
  "last_n n xs = drop (length xs - n) xs"

text \<open>\<^verbatim>\<open>s.lower()\<close> on ASCII, and the test \<^verbatim>\<open>x in s\<close> of two strings.\<close>

definition lower_char :: "char \<Rightarrow> char" where
  "lower_char c =
     (case map_of (zip ''ABCDEFGHIJKLMNOPQRSTUVWXYZ'' ''abcdefghijklmnopqrstuvwxyz'') c of
        None \<Rightarrow> c
      | Some l \<Rightarrow> l)"

definition lower :: "string \<Rightarrow> string" where
  "lower s = map lower_char s"

fun startswith :: "string \<Rightarrow> string \<Rightarrow> bool" where
  "startswith s [] = True"
| "startswith [] (p # ps) = False"
| "startswith (c # cs) (p # ps) = (c = p \<and> startswith cs ps)"

fun contains :: "string \<Rightarrow> string \<Rightarrow> bool" where
  "contains [] x = (x = [])"
| "contains (c # cs) x = (startswith (c # cs) x \<or> contains cs x)"

text \<open>
  \<^verbatim>\<open>datetime.datetime.strptime(s, "%Y-%m")\<close> and \<^verbatim>\<open>strptime(s, "%Y-%m-%d")\<close>; None
  stands for the ValueError of a string that does not match. The result is a
  datetime at midnight, written as its date. The year is four digits, month and
  day are one or two digits (a day may also be a space and a digit), and the date
  must exist.
\<close>

definition is_digit :: "char \<Rightarrow> bool" where
  "is_digit c = (c \<in> set ''0123456789'')"

definition digit_val :: "char \<Rightarrow> nat" where
  "digit_val c = length (takeWhile (\<lambda>d. d \<noteq> c) ''0123456789'')"

definition int_of_digits :: "string \<Rightarrow> nat" where
  "int_of_digits s = foldl (\<lambda>n c. 10 * n + digit_val c) 0 s"

definition parse_year :: "string \<Rightarrow> nat option" where
  "parse_year s =
     (if length s = 4 \<and> list_all is_digit s \<and> 1 \<le> int_of_digits s
      then Some (int_of_digits s) else None)"

definition parse_month :: "string \<Rightarrow> nat option" where
  "parse_month s =
     (if 1 \<le> length s \<and> length s \<le> 2 \<and> list_all is_digit s
         \<and> 1 \<le> int_of_digits s \<and> int_of_digits s \<le> 12
      then Some (int_of_digits s) else None)"

definition parse_day :: "string \<Rightarrow> nat option" where
  "parse_day s =
     (if 1 \<le> length s \<and> length s \<le> 2 \<and> list_all is_digit s
         \<and> 1 \<le> int_of_digits s \<and> int_of_digits s \<le> 31
      then Some (int_of_digits s)
      else if length s = 2 \<and> hd s = CHR '' '' \<and> is_digit (last s) \<and> 1 \<le> digit_val (last s)
      then Some (digit_val (last s))
      else None)"

definition strptime_Y_m :: "string \<Rightarrow> date option" where
  "strptime_Y_m s =
     (case split_sep (CHR ''-'') s of
        [ys, ms] \<Rightarrow>
          (case (parse_year ys, parse_month ms) of
             (Some y, Some m) \<Rightarrow> Some (y, m, 1)
           | _ \<Rightarrow> None)
      | _ \<Rightarrow> None)"

definition strptime_Y_m_d :: "string \<Rightarrow> date option" where
  "strptime_Y_m_d s =
     (case split_sep (CHR ''-'') s of
        [ys, ms, ds] \<Rightarrow>
          (case (parse_year ys, parse_month ms, parse_day ds) of
             (Some y, Some m, Some d) \<Rightarrow>
               (if d \<le> days_in_month y m then Some (y, m, d) else None)
           | _ \<Rightarrow> None)
      | _ \<Rightarrow> None)"

section \<open>The dumper object\<close>

text \<open>
  The fields of a \<^verbatim>\<open>BinanceDataDumper\<close>, named as in \<^verbatim>\<open>__init__\<close> without the
  leading underscore.
\<close>

record dumper =
  path_dir_where_to_dump :: string
  dict_new_points_saved_by_ticker :: "string \<Rightarrow> (string \<rightharpoonup> nat)"
  base_url :: string
  asset_class :: string
  data_type :: string
  data_frequency :: string
  max_concurrent_downloads :: int
  circuit_breaker_failures :: nat
  circuit_breaker_threshold :: nat
  circuit_breaker_reset_time :: real
  circuit_breaker_last_failure :: "real option"
  is_circuit_broken :: bool
  request_count :: nat
  successful_requests :: nat
  failed_requests :: nat
  not_found_requests :: nat
  active_connections :: int
  max_concurrent_connections :: int
  request_start_time :: "real option"
  request_timings :: "real list"
  bytes_downloaded :: nat

definition FUTURES_ASSET_CLASSES :: "string list" where
  "FUTURES_ASSET_CLASSES = [''um'', ''cm'']"

definition ASSET_CLASSES :: "string list" where
  "ASSET_CLASSES = [''spot'']"

definition DICT_DATA_TYPES_BY_ASSET :: "(string \<times> string list) list" where
  "DICT_DATA_TYPES_BY_ASSET =
     [(''spot'', [''aggTrades'', ''klines'', ''trades'']),
      (''cm'', [''aggTrades'', ''fundingRate'', ''klines'', ''trades'', ''indexPriceKlines'',
                ''markPriceKlines'', ''premiumIndexKlines'']),
      (''um'', [''aggTrades'', ''bookDepth'', ''bookTicker'', ''fundingRate'',
                ''indexPriceKlines'', ''klines'', ''liquidationSnapshot'', ''markPriceKlines'',
                ''metrics'', ''premiumIndexKlines'', ''trades''])]"

definition DATA_FREQUENCY_NEEDED_FOR_TYPE :: "string list" where
  "DATA_FREQUENCY_NEEDED_FOR_TYPE =
     [''klines'', ''indexPriceKlines'', ''markPriceKlines'', ''premiumIndexKlines'']"

definition DATA_FREQUENCY_ENUM :: "string list" where
  "DATA_FREQUENCY_ENUM =
     [''1s'', ''1m'', ''3m'', ''5m'', ''15m'', ''30m'', ''1h'', ''2h'', ''4h'', ''6h'', ''8h'',
      ''12h'', ''1d'', ''3d'', ''1w'', ''1mo'']"

datatype init_error =
  Unknown_asset_class | Unknown_data_type | Unknown_data_frequency | KeyError

text \<open>
  \<^verbatim>\<open>__init__\<close>. Each \<^verbatim>\<open>raise ValueError\<close> is a value of \<open>init_error\<close>; the lookup of
  the asset class in the dictionary of data types raises KeyError on a missing key.
  The lines that print the module's path and modification time are left out.
\<close>

definition BinanceDataDumper_init ::
  "string \<Rightarrow> string \<Rightarrow> string \<Rightarrow> string \<Rightarrow> int option \<Rightarrow> init_error + dumper" where
  "BinanceDataDumper_init path_dir asset_class_arg data_type_arg data_frequency_arg
       max_concurrent_downloads_arg =
     (if asset_class_arg \<notin> set (ASSET_CLASSES @ FUTURES_ASSET_CLASSES)
      then Inl Unknown_asset_class
      else
        (case map_of DICT_DATA_TYPES_BY_ASSET asset_class_arg of
           None \<Rightarrow> Inl KeyError
         | Some data_types \<Rightarrow>
             if data_type_arg \<notin> set data_types then Inl Unknown_data_type
             else if data_type_arg \<in> set DATA_FREQUENCY_NEEDED_FOR_TYPE
                     \<and> data_frequency_arg \<notin> set DATA_FREQUENCY_ENUM
             then Inl Unknown_data_frequency
             else Inr \<lparr>
               path_dir_where_to_dump = path_dir,
               dict_new_points_saved_by_ticker = (\<lambda>ticker. Map.empty),
               base_url = ''https://data.binance.vision/data'',
               asset_class = asset_class_arg,
               data_type = data_type_arg,
               data_frequency =
                 (if data_type_arg \<in> set DATA_FREQUENCY_NEEDED_FOR_TYPE
                  then data_frequency_arg else []),
               max_concurrent_downloads =
                 (case max_concurrent_downloads_arg of
                    None \<Rightarrow> (if data_type_arg = ''trades'' then 1 else 5)
                  | Some n \<Rightarrow> n),
               circuit_breaker_failures = 0,
               circuit_breaker_threshold = 5,
               circuit_breaker_reset_time = 300,
               circuit_breaker_last_failure = None,
               is_circuit_broken = False,
               request_count = 0,
               successful_requests = 0,
               failed_requests = 0,
               not_found_requests = 0,
               active_connections = 0,
               max_concurrent_connections = 0,
               request_start_time = None,
               request_timings = [],
               bytes_downloaded = 0 \<rparr>))"

text \<open>\<^verbatim>\<open>create_filename\<close>: an empty frequency is falsy, so the data type is used.\<close>

definition create_filename :: "dumper \<Rightarrow> string \<Rightarrow> date \<Rightarrow> string \<Rightarrow> string \<Rightarrow> string" where
  "create_filename self ticker date_obj timeperiod_per_file extension =
     (let str_date =
            (if timeperiod_per_file = ''monthly'' then strftime_Y_m date_obj
             else strftime_Y_m_d date_obj)
      in ticker @ ''-''
         @ (if data_frequency self \<noteq> [] then data_frequency self else data_type self)
         @ ''-'' @ str_date @ ''.'' @ extension)"

text \<open>\<^verbatim>\<open>_get_path_suffix_to_dir_with_data\<close> and \<^verbatim>\<open>get_local_dir_to_data\<close>.\<close>

definition get_path_suffix_to_dir_with_data :: "dumper \<Rightarrow> string \<Rightarrow> string \<Rightarrow> string" where
  "get_path_suffix_to_dir_with_data self timeperiod_per_file ticker =
     (let folder_path = [];
          folder_path =
            (if asset_class self \<in> set FUTURES_ASSET_CLASSES
             then os_path_join folder_path ''futures'' else folder_path);
          folder_path = os_path_join folder_path (asset_class self);
          folder_path = os_path_join folder_path timeperiod_per_file;
          folder_path = os_path_join folder_path (data_type self);
          folder_path = os_path_join folder_path ticker
      in if data_frequency self \<noteq> [] then os_path_join folder_path (data_frequency self)
         else folder_path)"

definition get_local_dir_to_data :: "dumper \<Rightarrow> string \<Rightarrow> string \<Rightarrow> string" where
  "get_local_dir_to_data self ticker timeperiod_per_file =
     os_path_join (path_dir_where_to_dump self)
       (get_path_suffix_to_dir_with_data self timeperiod_per_file ticker)"

section \<open>The world outside the dumper\<close>

text \<open>
  What the dumper reads from outside: the two clocks as dates
  (\<^verbatim>\<open>datetime.datetime.utcnow().date()\<close> and \<^verbatim>\<open>datetime.datetime.today()\<close>), the
  answer of the remote catalog to \<^verbatim>\<open>_get_list_all_available_files(prefix)\<close>, which
  is a list of keys or an exception, and the set of paths that exist on disk.
\<close>

datatype catalog_error = Catalog_error

record env =
  utcnow_date :: date
  today :: date
  available_files :: "string \<Rightarrow> catalog_error + string list"
  local_files :: "string set"

definition os_path_exists :: "env \<Rightarrow> string \<Rightarrow> bool" where
  "os_path_exists e p = (p \<in> local_files e)"

definition first_day_of_month :: "date \<Rightarrow> date" where
  "first_day_of_month d = (year d, month d, 1)"

section \<open>The local inventory\<close>

text \<open>\<^verbatim>\<open>get_all_dates_with_data_for_ticker\<close>.\<close>

definition get_all_dates_with_data_for_ticker ::
  "dumper \<Rightarrow> env \<Rightarrow> string \<Rightarrow> string \<Rightarrow> error + date list" where
  "get_all_dates_with_data_for_ticker self e ticker timeperiod_per_file =
     (let date_start = (2017, 1, 1);
          date_end = utcnow_date e
      in case create_list_dates_for_timeperiod date_start (Some date_end) timeperiod_per_file of
           Inl err \<Rightarrow> Inl err
         | Inr list_dates \<Rightarrow>
             (let path_folder_suffix =
                    get_path_suffix_to_dir_with_data self timeperiod_per_file ticker;
                  str_dir_where_to_save =
                    os_path_join (path_dir_where_to_dump self) path_folder_suffix
              in Inr (filter
                   (\<lambda>date_obj. os_path_exists e
                      (os_path_join str_dir_where_to_save
                         (create_filename self ticker date_obj timeperiod_per_file ''csv'')))
                   list_dates)))"

section \<open>The remote floor\<close>

text \<open>
  \<^verbatim>\<open>get_min_start_date_for_ticker\<close>. The date of a key is read from its last two
  (monthly) or three (daily) dash-separated parts before the first dot. A loop over
  the keys stops at the first key whose date does not parse: \<^verbatim>\<open>strptime\<close> raises,
  the \<^verbatim>\<open>except\<close> clause logs, and the function returns the minimum found so far.
  The datetimes compared are all at midnight and are written as dates.
\<close>

definition monthly_date_of :: "string \<Rightarrow> date option" where
  "monthly_date_of file =
     strptime_Y_m (join_sep ''-'' (last_n 2 (split_sep (CHR ''-'') (split_head (CHR ''.'') file))))"

definition daily_date_of :: "string \<Rightarrow> date option" where
  "daily_date_of file =
     strptime_Y_m_d (join_sep ''-'' (last_n 3 (split_sep (CHR ''-'') (split_head (CHR ''.'') file))))"

text \<open>
  The state of the first loop is \<open>(min_date, date_found)\<close>; the third component of
  the result tells whether the loop was left by an exception.
\<close>

fun scan_monthly :: "string list \<Rightarrow> date \<Rightarrow> bool \<Rightarrow> date \<times> bool \<times> bool" where
  "scan_monthly [] min_date date_found = (min_date, date_found, False)"
| "scan_monthly (file # files) min_date date_found =
     (case monthly_date_of file of
        None \<Rightarrow> (min_date, date_found, True)
      | Some date_obj \<Rightarrow>
          if date_obj < min_date then scan_monthly files date_obj True
          else scan_monthly files min_date date_found)"

fun scan_daily :: "string list \<Rightarrow> date \<Rightarrow> date" where
  "scan_daily [] min_date = min_date"
| "scan_daily (file # files) min_date =
     (case daily_date_of file of
        None \<Rightarrow> min_date
      | Some date_obj \<Rightarrow>
          if date_obj < min_date then scan_daily files date_obj
          else scan_daily files min_date)"

definition get_min_start_date_for_ticker :: "dumper \<Rightarrow> env \<Rightarrow> string \<Rightarrow> date" where
  "get_min_start_date_for_ticker self e ticker =
     (let path_folder_prefix = get_path_suffix_to_dir_with_data self ''monthly'' ticker;
          min_date = first_day_of_month (today e)
      in case available_files e path_folder_prefix of
           Inl err \<Rightarrow> min_date
         | Inr files \<Rightarrow>
             (case scan_monthly files min_date False of
                (min_date, date_found, raised) \<Rightarrow>
                  if raised then min_date
                  else if \<not> date_found then
                    (case available_files e
                            (get_path_suffix_to_dir_with_data self ''daily'' ticker) of
                       Inl err \<Rightarrow> min_date
                     | Inr files \<Rightarrow> scan_daily files min_date)
                  else min_date))"

section \<open>Pending dates of one pass\<close>

text \<open>
  The first part of \<^verbatim>\<open>_download_data_for_1_ticker\<close>, up to \<^verbatim>\<open>list_dates_cleared\<close>, the
  dates handed to the worker pool. When the list is empty the function returns
  without a download.
\<close>

definition list_dates_cleared ::
  "dumper \<Rightarrow> env \<Rightarrow> string \<Rightarrow> date \<Rightarrow> date option \<Rightarrow> string \<Rightarrow> bool \<Rightarrow> error + date list" where
  "list_dates_cleared self e ticker date_start date_end timeperiod_per_file
       is_to_update_existing =
     (let min_start_date = get_min_start_date_for_ticker self e ticker;
          date_start = (if date_start < min_start_date then min_start_date else date_start)
      in case create_list_dates_for_timeperiod date_start date_end timeperiod_per_file of
           Inl err \<Rightarrow> Inl err
         | Inr list_dates \<Rightarrow>
             (case get_all_dates_with_data_for_ticker self e ticker timeperiod_per_file of
                Inl err \<Rightarrow> Inl err
              | Inr list_dates_with_data \<Rightarrow>
                  Inr (if is_to_update_existing then list_dates
                       else filter (\<lambda>date_obj. date_obj \<notin> set list_dates_with_data)
                              list_dates)))"

section \<open>The two passes of a run\<close>

text \<open>
  The calls of \<^verbatim>\<open>_download_data_for_1_ticker\<close> that \<^verbatim>\<open>dump_data\<close> makes for each
  ticker, as (timeperiod_per_file, date_start, date_end), after it has clamped the
  two dates.
\<close>

definition dump_data_passes ::
  "dumper \<Rightarrow> env \<Rightarrow> date option \<Rightarrow> date option \<Rightarrow> (string \<times> date \<times> date) list" where
  "dump_data_passes self e date_start_arg date_end_arg =
     (let date_start = (case date_start_arg of None \<Rightarrow> (2017, 1, 1) | Some d \<Rightarrow> d);
          date_start = (if date_start < (2017, 1, 1) then (2017, 1, 1) else date_start);
          date_end = (case date_end_arg of None \<Rightarrow> sub_days1 (utcnow_date e) | Some d \<Rightarrow> d);
          date_end = (if date_end > sub_days1 (utcnow_date e) then sub_days1 (utcnow_date e)
                      else date_end);
          date_end_first_day_of_month = first_day_of_month date_end
      in (if data_type self \<noteq> ''metrics''
             \<and> sub_days1 date_end_first_day_of_month > date_start
          then [(''monthly'', date_start, sub_days1 date_end_first_day_of_month)]
          else [])
         @ [(''daily'',
             (if data_type self = ''metrics'' then date_start else date_end_first_day_of_month),
             date_end)])"

section \<open>The circuit breaker and the download of one file\<close>

text \<open>
  What a download does outside the object is kept in a second record: the clock
  that \<^verbatim>\<open>time.time()\<close> reads, advanced by sleeps and by the time a network call
  takes, and the trace of the calls made, in order: each network call, each sleep
  with its seconds, each call of \<^verbatim>\<open>_record_download_failure\<close> with its error type,
  and the three log lines of the breaker (triggered, reset, download skipped).
\<close>

datatype event =
  NetworkCall | Sleep nat | RecordFailure string
  | BreakerTriggered | BreakerReset | SkippedOpen

record world =
  clock :: real
  events :: "event list"

text \<open>
  The outcome of the body of the \<^verbatim>\<open>try\<close> block of one attempt: the file was
  written (with its number of bytes), or one of the three \<^verbatim>\<open>except\<close> clauses is
  entered: \<^verbatim>\<open>HTTPError\<close> with its code, \<^verbatim>\<open>URLError\<close> with \<^verbatim>\<open>str(ex.reason)\<close>, any other
  exception with \<^verbatim>\<open>str(ex)\<close>. The network is a function from the number of the
  attempt to the seconds it takes and its outcome.
\<close>

datatype outcome =
  Downloaded nat | HTTPError nat | URLError string | OtherException string

type_synonym network = "nat \<Rightarrow> real \<times> outcome"

definition log_event :: "event \<Rightarrow> world \<Rightarrow> world" where
  "log_event ev w = w\<lparr>events := events w @ [ev]\<rparr>"

definition time_sleep :: "nat \<Rightarrow> world \<Rightarrow> world" where
  "time_sleep seconds w = log_event (Sleep seconds) (w\<lparr>clock := clock w + real seconds\<rparr>)"

text \<open>
  \<^verbatim>\<open>_check_circuit_breaker\<close>. The test \<^verbatim>\<open>if self._circuit_breaker_last_failure:\<close> is
  false for None and for the float 0.0.
\<close>

definition check_circuit_breaker :: "dumper \<times> world \<Rightarrow> bool \<times> dumper \<times> world" where
  "check_circuit_breaker s =
     (case s of (self, w) \<Rightarrow>
        if \<not> is_circuit_broken self then (False, self, w)
        else
          (case circuit_breaker_last_failure self of
             None \<Rightarrow> (True, self, w)
           | Some last_failure \<Rightarrow>
               if last_failure \<noteq> 0
                  \<and> clock w - last_failure \<ge> circuit_breaker_reset_time self
               then (False,
                     self\<lparr>is_circuit_broken := False, circuit_breaker_failures := 0\<rparr>,
                     log_event BreakerReset w)
               else (True, self, w)))"

text \<open>\<^verbatim>\<open>_record_download_failure\<close> and \<^verbatim>\<open>_record_download_success\<close>.\<close>

definition record_download_failure :: "string \<Rightarrow> dumper \<times> world \<Rightarrow> dumper \<times> world" where
  "record_download_failure error_type s =
     (case s of (self, w) \<Rightarrow>
        let self = self\<lparr>circuit_breaker_failures := circuit_breaker_failures self + 1,
                        circuit_breaker_last_failure := Some (clock w)\<rparr>;
            w = log_event (RecordFailure error_type) w
        in if circuit_breaker_failures self \<ge> circuit_breaker_threshold self
              \<and> \<not> is_circuit_broken self
           then (self\<lparr>is_circuit_broken := True\<rparr>, log_event BreakerTriggered w)
           else (self, w))"

definition record_download_success :: "dumper \<Rightarrow> dumper" where
  "record_download_success self =
     (if circuit_breaker_failures self > 0 then self\<lparr>circuit_breaker_failures := 0\<rparr>
      else self)"

text \<open>
  One turn of the loop \<^verbatim>\<open>for attempt in range(max_retries)\<close> of
  \<^verbatim>\<open>_download_raw_file\<close> either returns from the function or goes on to the next
  attempt (\<^verbatim>\<open>continue\<close>).
\<close>

datatype 'a turn = Return nat 'a | Continue 'a

text \<open>
  The head of the \<^verbatim>\<open>try\<close> block: the counters, then the network call. The
  benchmark line written every tenth request changes nothing and is left out. The
  two ways of reading the response (with and without a progress bar) raise the
  same exceptions and add the bytes of the file to the same counter.
\<close>

definition begin_attempt :: "network \<Rightarrow> nat \<Rightarrow> dumper \<times> world \<Rightarrow> dumper \<times> world" where
  "begin_attempt net attempt s =
     (case s of (self, w) \<Rightarrow>
        let self = self\<lparr>active_connections := active_connections self + 1,
                        request_count := request_count self + 1\<rparr>;
            self = (if active_connections self > max_concurrent_connections self
                    then self\<lparr>max_concurrent_connections := active_connections self\<rparr>
                    else self);
            w = log_event NetworkCall w
        in (self, w\<lparr>clock := clock w + fst (net attempt)\<rparr>))"

text \<open>
  The common tail of the retried branches: sleep and \<^verbatim>\<open>continue\<close> unless this was
  the last attempt, else count the request as failed and return 0.
\<close>

definition sleep_or_fail :: "nat \<Rightarrow> nat \<Rightarrow> nat \<Rightarrow> dumper \<times> world \<Rightarrow> (dumper \<times> world) turn" where
  "sleep_or_fail seconds attempt max_retries s =
     (case s of (self, w) \<Rightarrow>
        if int attempt < int max_retries - 1 then Continue (self, time_sleep seconds w)
        else Return 0 (self\<lparr>failed_requests := failed_requests self + 1\<rparr>, w))"

definition attempt_once ::
  "network \<Rightarrow> nat \<Rightarrow> real \<Rightarrow> nat \<Rightarrow> dumper \<times> world \<Rightarrow> (dumper \<times> world) turn" where
  "attempt_once net max_retries request_start attempt s =
     (case begin_attempt net attempt s of (self, w) \<Rightarrow>
        (case snd (net attempt) of
           Downloaded n \<Rightarrow>
             (let self = self\<lparr>bytes_downloaded := bytes_downloaded self + n\<rparr>;
                  self = record_download_success self;
                  self = self\<lparr>successful_requests := successful_requests self + 1,
                              active_connections := active_connections self - 1\<rparr>;
                  request_duration = clock w - request_start
              in Return 1 (self\<lparr>request_timings := request_timings self @ [request_duration]\<rparr>, w))
         | HTTPError code \<Rightarrow>
             (let self = self\<lparr>active_connections := active_connections self - 1\<rparr>
              in if code = 404
                 then Return 0 (self\<lparr>not_found_requests := not_found_requests self + 1\<rparr>, w)
                 else if code = 418
                 then (case record_download_failure ''IP_BAN_418'' (self, w) of (self, w) \<Rightarrow>
                         Return 0
                           (self\<lparr>failed_requests := failed_requests self + 1,
                                  is_circuit_broken := True,
                                  circuit_breaker_failures := circuit_breaker_threshold self\<rparr>,
                            w))
                 else if code = 403
                 then sleep_or_fail (2 ^ attempt * 5) attempt max_retries
                        (record_download_failure ''WAF_403'' (self, w))
                 else if code = 429
                 then sleep_or_fail (2 ^ attempt * 5) attempt max_retries
                        (record_download_failure ''RATE_LIMIT_429'' (self, w))
                 else if code = 503
                 then sleep_or_fail (2 ^ attempt * 5) attempt max_retries
                        (record_download_failure ''CLOUDFRONT_503'' (self, w))
                 else sleep_or_fail (2 ^ attempt) attempt max_retries (self, w))
         | URLError reason \<Rightarrow>
             (let self = self\<lparr>active_connections := active_connections self - 1\<rparr>;
                  error_str = lower reason
              in if contains error_str ''ssl'' \<or> contains error_str ''eof''
                    \<or> contains error_str ''protocol''
                 then sleep_or_fail (2 ^ attempt * 5) attempt max_retries
                        (record_download_failure ''SSL_ERROR_RATE_LIMIT'' (self, w))
                 else sleep_or_fail (2 ^ attempt) attempt max_retries (self, w))
         | OtherException msg \<Rightarrow>
             (let self = self\<lparr>active_connections := active_connections self - 1\<rparr>;
                  error_str = lower msg
              in sleep_or_fail (2 ^ attempt) attempt max_retries
                   (if contains error_str ''ssl'' \<or> contains error_str ''connection''
                       \<or> contains error_str ''reset''
                    then record_download_failure ''CONNECTION_ERROR'' (self, w)
                    else (self, w)))))"

function attempts_loop ::
  "network \<Rightarrow> nat \<Rightarrow> real \<Rightarrow> nat \<Rightarrow> dumper \<times> world \<Rightarrow> nat \<times> dumper \<times> world" where
  "attempts_loop net max_retries request_start attempt s =
     (if attempt < max_retries
      then (case attempt_once net max_retries request_start attempt s of
              Return r s' \<Rightarrow> (r, s')
            | Continue s' \<Rightarrow> attempts_loop net max_retries request_start (Suc attempt) s')
      else (case s of (self, w) \<Rightarrow>
              (0, self\<lparr>failed_requests := failed_requests self + 1\<rparr>, w)))"
  by pat_completeness auto
termination
  by (relation "measure (\<lambda>(net, max_retries, request_start, attempt, s). max_retries - attempt)")
     auto

declare attempts_loop.simps [simp del]

text \<open>\<^verbatim>\<open>_download_raw_file\<close>: the breaker is asked once, before the loop.\<close>

definition download_raw_file :: "network \<Rightarrow> nat \<Rightarrow> dumper \<times> world \<Rightarrow> nat \<times> dumper \<times> world" where
  "download_raw_file net max_retries s =
     (case check_circuit_breaker s of
        (True, self, w) \<Rightarrow> (0, self, log_event SkippedOpen w)
      | (False, self, w) \<Rightarrow>
          (let request_start = clock w;
               self = (if request_start_time self = None
                       then self\<lparr>request_start_time := Some request_start\<rparr> else self)
           in attempts_loop net max_retries request_start 0 (self, w)))"

section \<open>Reading a trace\<close>

text \<open>
  The seconds of the sleeps of a trace, the error types of its recorded failures,
  and the number of its network calls.
\<close>

fun sleeps_of :: "event list \<Rightarrow> nat list" where
  "sleeps_of [] = []"
| "sleeps_of (Sleep n # evs) = n # sleeps_of evs"
| "sleeps_of (ev # evs) = sleeps_of evs"


fun network_calls :: "event list \<Rightarrow> nat" where
  "network_calls [] = 0"
| "network_calls (NetworkCall # evs) = Suc (network_calls evs)"
| "network_calls (ev # evs) = network_calls evs"

text \<open>The events that a call added to the trace it started from.\<close>

definition new_events :: "world \<Rightarrow> world \<Rightarrow> event list" where
  "new_events w w' = drop (length (events w)) (events w')"


text \<open>
  A run of consecutive recorded failures: the calls of
  \<^verbatim>\<open>_record_download_failure\<close> made one after the other, each with its error type
  and the clock reading at which it is made, with no recorded success in between.
\<close>

fun record_failures_at :: "(string \<times> real) list \<Rightarrow> dumper \<times> world \<Rightarrow> dumper \<times> world" where
  "record_failures_at [] s = s"
| "record_failures_at ((error_type, t) # fs) s =
     record_failures_at fs
       (record_download_failure error_type (fst s, (snd s)\<lparr>clock := t\<rparr>))"

text \<open>
  The object that \<^verbatim>\<open>BinanceDataDumper("data", "spot", "klines", "1m")\<close> builds.
\<close>

definition example_dumper :: dumper where
  "example_dumper = projr (BinanceDataDumper_init ''data'' ''spot'' ''klines'' ''1m'' None)"

section \<open>Basic facts\<close>

lemma example_dumper_init:
  "BinanceDataDumper_init ''data'' ''spot'' ''klines'' ''1m'' None = Inr example_dumper"
  by (simp add: example_dumper_def BinanceDataDumper_init_def ASSET_CLASSES_def
      FUTURES_ASSET_CLASSES_def DICT_DATA_TYPES_BY_ASSET_def DATA_FREQUENCY_NEEDED_FOR_TYPE_def
      DATA_FREQUENCY_ENUM_def)

lemma example_dumper_eq:
  "example_dumper = \<lparr>
     path_dir_where_to_dump = ''data'',
     dict_new_points_saved_by_ticker = (\<lambda>ticker. Map.empty),
     base_url = ''https://data.binance.vision/data'',
     asset_class = ''spot'',
     data_type = ''klines'',
     data_frequency = ''1m'',
     max_concurrent_downloads = 5,
     circuit_breaker_failures = 0,
     circuit_breaker_threshold = 5,
     circuit_breaker_reset_time = 300,
     circuit_breaker_last_failure = None,
     is_circuit_broken = False,
     request_count = 0,
     successful_requests = 0,
     failed_requests = 0,
     not_found_requests = 0,
     active_connections = 0,
     max_concurrent_connections = 0,
     request_start_time = None,
     request_timings = [],
     bytes_downloaded = 0 \<rparr>"
  by (simp add: example_dumper_def BinanceDataDumper_init_def ASSET_CLASSES_def
      FUTURES_ASSET_CLASSES_def DICT_DATA_TYPES_BY_ASSET_def DATA_FREQUENCY_NEEDED_FOR_TYPE_def
      DATA_FREQUENCY_ENUM_def)




section \<open>Properties of the planner\<close>

lemma date_after_greater: "d < date_after tp d"
proof -
  obtain y m dd where d: "d = (y, m, dd)" by (cases d) auto
  show ?thesis
    by (auto simp: d date_after_def month_after_def day_after_def year_def month_def day_def)
qed

lemma dates_from_empty: "\<not> c \<le> e \<Longrightarrow> dates_from c e tp = []"
  by (simp add: dates_from.simps)

lemma dates_from_step: "c \<le> e \<Longrightarrow> dates_from c e tp = c # dates_from (date_after tp c) e tp"
  by (subst dates_from.simps) simp






lemma days_in_month_pos: "1 \<le> days_in_month y m"
  by (simp add: days_in_month_def)

lemma month_after_day1: "day d = 1 \<Longrightarrow> day (month_after d) = 1"
  using days_in_month_pos by (simp add: month_after_def day_def min_def)

lemma dates_from_monthly_day1:
  "day c = 1 \<Longrightarrow> x \<in> set (dates_from c e ''monthly'') \<Longrightarrow> day x = 1"
proof (induction c e "''monthly''" rule: dates_from.induct)
  case (1 c e)
  show ?case
  proof (cases "c \<le> e")
    case True
    have "day (date_after ''monthly'' c) = 1"
      using 1(2) by (simp add: date_after_def month_after_day1)
    with 1 True show ?thesis by (auto simp: dates_from_step)
  next
    case False
    with 1 show ?thesis by (simp add: dates_from_empty)
  qed
qed



lemmas date_simps =
  next_date_def add_months1_def add_days1_def MAXYEAR_def
  date_after_def month_after_def day_after_def sub_days1_def
  year_def month_def day_def days_in_month_def isleap_def

text \<open>The loop of the planner against the dates of the calendar alone.\<close>

lemma date_le_year: "(x :: date) \<le> e \<Longrightarrow> year x \<le> year e"
  by (cases x, cases e) (auto simp: year_def)

lemma year_date_after: "year (date_after tp d) \<le> Suc (year d)"
  by (simp add: date_after_def month_after_def day_after_def year_def)

lemma next_date_in_range: "year d < MAXYEAR \<Longrightarrow> next_date tp d = Inr (date_after tp d)"
proof -
  assume "year d < MAXYEAR"
  with year_date_after [of tp d] have "\<not> MAXYEAR < year (date_after tp d)" by simp
  then show ?thesis
    by (cases "tp = ''monthly''")
       (simp_all add: next_date_def add_months1_def add_days1_def date_after_def)
qed

lemma dates_loop_stop: "\<not> c \<le> e \<Longrightarrow> dates_loop c e tp = Inr []"
  by (simp add: dates_loop.simps)

lemma dates_loop_Inr: "dates_loop c e tp = Inr ds \<Longrightarrow> ds = dates_from c e tp"
proof (induction c e tp arbitrary: ds rule: dates_loop.induct)
  case (1 c e tp)
  show ?case
  proof (cases "c \<le> e")
    case False
    with 1(2) show ?thesis by (simp add: dates_loop.simps dates_from_empty)
  next
    case True
    from 1(2) True obtain n ds' where n: "next_date tp c = Inr n"
      and r: "dates_loop n e tp = Inr ds'" and ds: "ds = c # ds'"
      by (subst (asm) dates_loop.simps) (auto split: sum.splits)
    from 1(1) [OF True n r] have "ds' = dates_from n e tp" .
    moreover from n have "n = date_after tp c" by (rule next_date_Inr)
    ultimately show ?thesis using True ds by (simp add: dates_from_step)
  qed
qed

lemma dates_loop_in_range:
  "year e < MAXYEAR \<Longrightarrow> dates_loop c e tp = Inr (dates_from c e tp)"
proof (induction c e tp rule: dates_from.induct)
  case (1 c e tp)
  show ?case
  proof (cases "c \<le> e")
    case False
    then show ?thesis by (simp add: dates_loop_stop dates_from_empty)
  next
    case True
    then have "year c < MAXYEAR" using 1(2) date_le_year [of c e] by simp
    then have n: "next_date tp c = Inr (date_after tp c)" by (rule next_date_in_range)
    from 1(1) [OF True 1(2)]
    have "dates_loop (date_after tp c) e tp = Inr (dates_from (date_after tp c) e tp)" .
    with n True show ?thesis
      by (subst dates_loop.simps) (simp add: dates_from_step)
  qed
qed

text \<open>
  C8. The claim is that a start date after the end date makes the planner fail with
  an InvalidRange error. The source has no such check: the loop condition is false
  at once and the planner returns the empty list. Here it does so for
  start 2023-03-01 and end 2023-01-01.
\<close>

theorem planner_swapped_range_returns_empty_example:
  "create_list_dates_for_timeperiod (2023, 3, 1) (Some (2023, 1, 1)) ''monthly'' = Inr []"
  by (simp add: create_list_dates_for_timeperiod_def dates_loop.simps)

text \<open>
  C8, as the code has it: for every start date strictly after the end date, and
  every granularity, the planner returns the empty sequence and raises nothing.
\<close>

theorem planner_swapped_range_returns_empty:
  "date_end < date_start \<Longrightarrow>
   create_list_dates_for_timeperiod date_start (Some date_end) timeperiod_per_file = Inr []"
  by (simp add: create_list_dates_for_timeperiod_def dates_loop_stop)

theorem planner_swapped_range_returns_empty_witness:
  "((2024, 2, 1) :: date) < (2024, 2, 10) \<and>
   create_list_dates_for_timeperiod (2024, 2, 10) (Some (2024, 2, 1)) ''daily'' = Inr []"
  using planner_swapped_range_returns_empty [of "(2024, 2, 1)" "(2024, 2, 10)" "''daily''"]
  by simp

text \<open>
  The day added by \<open>day_after\<close> is the calendar's: the result is the least valid
  date after the given one.
\<close>

lemma day_after_successor:
  "valid_date d \<Longrightarrow>
   valid_date (day_after d) \<and> d < day_after d \<and>
   (\<forall>x. valid_date x \<and> d < x \<longrightarrow> day_after d \<le> x)"
proof -
  assume v: "valid_date d"
  obtain y m dd where d: "d = (y, m, dd)" by (cases d) auto
  have a: "valid_date (day_after d)"
    using v by (auto simp: d valid_date_def day_after_def year_def month_def day_def days_in_month_def)
  have b: "d < day_after d"
    using date_after_greater [of d "''daily''"] by (simp add: date_after_def)
  have c: "day_after d \<le> x" if "valid_date x" "d < x" for x
  proof -
    obtain y' m' d' where x: "x = (y', m', d')" by (cases x) auto
    show ?thesis
      using v that
      apply (auto simp: d x valid_date_def day_after_def year_def month_def day_def)
       apply (subgoal_tac "m' = m"; simp)
      apply (subgoal_tac "m' = m \<and> y' = y"; simp)
      done
  qed
  from a b c show ?thesis by blast
qed




section \<open>Properties of the download\<close>

lemma attempts_loop_Return:
  "attempt < max_retries \<Longrightarrow>
   attempt_once net max_retries request_start attempt s = Return r s' \<Longrightarrow>
   attempts_loop net max_retries request_start attempt s = (r, s')"
  by (subst attempts_loop.simps) simp

lemma attempts_loop_Continue:
  "attempt < max_retries \<Longrightarrow>
   attempt_once net max_retries request_start attempt s = Continue s' \<Longrightarrow>
   attempts_loop net max_retries request_start attempt s
     = attempts_loop net max_retries request_start (Suc attempt) s'"
  by (subst attempts_loop.simps) simp

lemma attempt_once_404:
  "snd (net attempt) = HTTPError 404 \<Longrightarrow>
   attempt_once net max_retries request_start attempt s =
     Return 0 (case begin_attempt net attempt s of (self, w) \<Rightarrow>
       (self\<lparr>active_connections := active_connections self - 1,
              not_found_requests := not_found_requests self + 1\<rparr>, w))"
  by (simp add: attempt_once_def Let_def split: prod.splits)

lemma begin_attempt_fields:
  "begin_attempt net attempt (self, w) = (self', w') \<Longrightarrow>
   request_count self' = request_count self + 1 \<and>
   circuit_breaker_failures self' = circuit_breaker_failures self \<and>
   circuit_breaker_threshold self' = circuit_breaker_threshold self \<and>
   circuit_breaker_reset_time self' = circuit_breaker_reset_time self \<and>
   circuit_breaker_last_failure self' = circuit_breaker_last_failure self \<and>
   is_circuit_broken self' = is_circuit_broken self \<and>
   failed_requests self' = failed_requests self \<and>
   not_found_requests self' = not_found_requests self \<and>
   successful_requests self' = successful_requests self \<and>
   events w' = events w @ [NetworkCall] \<and>
   clock w' = clock w + fst (net attempt)"
  by (auto simp: begin_attempt_def Let_def log_event_def split: if_splits)

lemma record_download_failure_fields:
  "record_download_failure error_type (self, w) = (self', w') \<Longrightarrow>
   circuit_breaker_failures self' = circuit_breaker_failures self + 1 \<and>
   circuit_breaker_last_failure self' = Some (clock w) \<and>
   circuit_breaker_threshold self' = circuit_breaker_threshold self \<and>
   circuit_breaker_reset_time self' = circuit_breaker_reset_time self \<and>
   is_circuit_broken self' =
     (is_circuit_broken self
      \<or> circuit_breaker_threshold self \<le> circuit_breaker_failures self + 1) \<and>
   failed_requests self' = failed_requests self \<and>
   not_found_requests self' = not_found_requests self \<and>
   request_count self' = request_count self \<and>
   clock w' = clock w \<and>
   events w' = events w @ RecordFailure error_type #
     (if circuit_breaker_threshold self \<le> circuit_breaker_failures self + 1
         \<and> \<not> is_circuit_broken self
      then [BreakerTriggered] else [])"
  by (auto simp: record_download_failure_def Let_def log_event_def split: if_splits)

lemma attempt_once_418:
  "snd (net attempt) = HTTPError 418 \<Longrightarrow>
   attempt_once net max_retries request_start attempt s =
     (case begin_attempt net attempt s of (self, w) \<Rightarrow>
        (case record_download_failure ''IP_BAN_418''
                (self\<lparr>active_connections := active_connections self - 1\<rparr>, w) of
           (self, w) \<Rightarrow>
             Return 0 (self\<lparr>failed_requests := failed_requests self + 1,
                             is_circuit_broken := True,
                             circuit_breaker_failures := circuit_breaker_threshold self\<rparr>, w)))"
  by (simp add: attempt_once_def Let_def split: prod.splits)







section \<open>A response 404\<close>

text \<open>
  C3. Whenever an attempt of a download receives the HTTP status 404, the download
  returns 0 at once: the counter of files not found goes up by one, the one network
  call of this attempt is the only event (no sleep, no further attempt), and the
  failure counter of the breaker, its time stamp, its open flag and the counter of
  failed requests are as before.
\<close>

theorem not_found_returns_at_once:
  assumes "attempt < max_retries" and "snd (net attempt) = HTTPError 404"
  shows "\<exists>self' w'.
     attempts_loop net max_retries request_start attempt (self, w) = (0, self', w')
     \<and> not_found_requests self' = not_found_requests self + 1
     \<and> circuit_breaker_failures self' = circuit_breaker_failures self
     \<and> circuit_breaker_last_failure self' = circuit_breaker_last_failure self
     \<and> is_circuit_broken self' = is_circuit_broken self
     \<and> failed_requests self' = failed_requests self
     \<and> request_count self' = request_count self + 1
     \<and> events w' = events w @ [NetworkCall]"
proof -
  obtain self1 w1 where b: "begin_attempt net attempt (self, w) = (self1, w1)"
    by (cases "begin_attempt net attempt (self, w)") auto
  note f = begin_attempt_fields [OF b]
  have "attempts_loop net max_retries request_start attempt (self, w) =
          (0, self1\<lparr>active_connections := active_connections self1 - 1,
                   not_found_requests := not_found_requests self1 + 1\<rparr>, w1)"
    using attempts_loop_Return [OF assms(1)] attempt_once_404 [of net attempt, OF assms(2)] b by simp
  then show ?thesis using f by simp
qed

theorem not_found_returns_at_once_witness:
  "(0::nat) < 3 \<and> snd ((\<lambda>k::nat. (1::real, HTTPError 404)) 0) = HTTPError 404 \<and>
   (\<exists>self' w'.
      attempts_loop (\<lambda>k. (1, HTTPError 404)) 3 1700000000 0
        (example_dumper, \<lparr>clock = 1700000000, events = []\<rparr>) = (0, self', w')
      \<and> not_found_requests self' = 1 \<and> circuit_breaker_failures self' = 0
      \<and> failed_requests self' = 0 \<and> events w' = [NetworkCall])"
  using not_found_returns_at_once [where attempt = 0 and max_retries = 3
      and net = "\<lambda>k. (1, HTTPError 404)" and request_start = 1700000000
      and self = example_dumper and w = "\<lparr>clock = 1700000000, events = []\<rparr>"]
  by (auto simp add: example_dumper_eq)

section \<open>A response 418\<close>

text \<open>
  C4. Whenever an attempt of a download receives the HTTP status 418, the download
  returns 0 with no further attempt and no sleep, the request is counted as failed,
  and the breaker is open afterwards with its failure counter at the threshold,
  whatever the counter was before.
\<close>

theorem ban_forces_breaker_open:
  assumes "attempt < max_retries" and "snd (net attempt) = HTTPError 418"
  shows "\<exists>self' w'.
     attempts_loop net max_retries request_start attempt (self, w) = (0, self', w')
     \<and> is_circuit_broken self'
     \<and> circuit_breaker_failures self' = circuit_breaker_threshold self
     \<and> circuit_breaker_last_failure self' = Some (clock w + fst (net attempt))
     \<and> failed_requests self' = failed_requests self + 1
     \<and> request_count self' = request_count self + 1
     \<and> network_calls (new_events w w') = 1
     \<and> sleeps_of (new_events w w') = []"
proof -
  obtain self1 w1 where b: "begin_attempt net attempt (self, w) = (self1, w1)"
    by (cases "begin_attempt net attempt (self, w)") auto
  note f = begin_attempt_fields [OF b]
  obtain self2 w2 where r: "record_download_failure ''IP_BAN_418''
      (self1\<lparr>active_connections := active_connections self1 - 1\<rparr>, w1) = (self2, w2)"
    by (cases "record_download_failure ''IP_BAN_418''
      (self1\<lparr>active_connections := active_connections self1 - 1\<rparr>, w1)") auto
  note g = record_download_failure_fields [OF r]
  have "attempts_loop net max_retries request_start attempt (self, w) =
          (0, self2\<lparr>failed_requests := failed_requests self2 + 1,
                   is_circuit_broken := True,
                   circuit_breaker_failures := circuit_breaker_threshold self2\<rparr>, w2)"
    using attempts_loop_Return [OF assms(1)] attempt_once_418 [of net attempt, OF assms(2)] b r
    by simp
  then show ?thesis using f g by (simp add: new_events_def)
qed

theorem ban_forces_breaker_open_witness:
  "(0::nat) < 3 \<and> snd ((\<lambda>k::nat. (1::real, HTTPError 418)) 0) = HTTPError 418 \<and>
   (\<exists>self' w'.
      attempts_loop (\<lambda>k. (1, HTTPError 418)) 3 1700000000 0
        (example_dumper, \<lparr>clock = 1700000000, events = []\<rparr>) = (0, self', w')
      \<and> is_circuit_broken self' \<and> circuit_breaker_failures self' = 5
      \<and> failed_requests self' = 1
      \<and> network_calls (new_events \<lparr>clock = 1700000000, events = []\<rparr> w') = 1)"
  using ban_forces_breaker_open [where attempt = 0 and max_retries = 3
      and net = "\<lambda>k. (1, HTTPError 418)" and request_start = 1700000000
      and self = example_dumper and w = "\<lparr>clock = 1700000000, events = []\<rparr>"]
  by (auto simp add: example_dumper_eq)

lemma new_events_append: "events w' = events w @ evs \<Longrightarrow> new_events w w' = evs"
  by (simp add: new_events_def)

lemma download_raw_file_started:
  assumes "check_circuit_breaker (self, w) = (False, self0, w0)"
  shows "\<exists>self1. download_raw_file net max_retries (self, w)
           = attempts_loop net max_retries (clock w0) 0 (self1, w0)
         \<and> failed_requests self1 = failed_requests self0
         \<and> circuit_breaker_failures self1 = circuit_breaker_failures self0
         \<and> is_circuit_broken self1 = is_circuit_broken self0
         \<and> circuit_breaker_threshold self1 = circuit_breaker_threshold self0
         \<and> circuit_breaker_last_failure self1 = circuit_breaker_last_failure self0"
  using assms by (auto simp: download_raw_file_def Let_def)

lemmas download_simps =
  download_raw_file_def check_circuit_breaker_def attempts_loop.simps attempt_once_def
  begin_attempt_def sleep_or_fail_def record_download_failure_def record_download_success_def
  time_sleep_def log_event_def Let_def lower_def lower_char_def

lemma record_failures_at_fields:
  "record_failures_at fs (self, w) = (self', w') \<Longrightarrow>
   circuit_breaker_failures self' = circuit_breaker_failures self + length fs \<and>
   circuit_breaker_threshold self' = circuit_breaker_threshold self \<and>
   circuit_breaker_reset_time self' = circuit_breaker_reset_time self \<and>
   circuit_breaker_last_failure self' =
     (if fs = [] then circuit_breaker_last_failure self else Some (snd (last fs))) \<and>
   is_circuit_broken self' =
     (is_circuit_broken self
      \<or> (fs \<noteq> [] \<and> circuit_breaker_threshold self \<le> circuit_breaker_failures self + length fs))"
proof (induction fs arbitrary: self w)
  case Nil
  then show ?case by simp
next
  case (Cons f fs)
  obtain error_type t where f: "f = (error_type, t)" by (cases f) auto
  obtain self1 w1 where r:
    "record_download_failure error_type (self, w\<lparr>clock := t\<rparr>) = (self1, w1)"
    by (cases "record_download_failure error_type (self, w\<lparr>clock := t\<rparr>)") auto
  note g = record_download_failure_fields [OF r]
  from Cons.prems f r have "record_failures_at fs (self1, w1) = (self', w')" by simp
  from Cons.IH [OF this] g show ?case by (auto simp: f)
qed

lemma download_skipped_when_open:
  assumes "is_circuit_broken self"
    and "circuit_breaker_last_failure self = Some t"
    and "t = 0 \<or> clock w - t < circuit_breaker_reset_time self"
  shows "download_raw_file net max_retries (self, w) = (0, self, log_event SkippedOpen w)"
  using assms by (auto simp: download_raw_file_def check_circuit_breaker_def)

lemma check_resets_after_cooldown:
  assumes "is_circuit_broken self"
    and "circuit_breaker_last_failure self = Some t" and "t \<noteq> 0"
    and "circuit_breaker_reset_time self \<le> clock w - t"
  shows "check_circuit_breaker (self, w) =
    (False, self\<lparr>is_circuit_broken := False, circuit_breaker_failures := 0\<rparr>,
     log_event BreakerReset w)"
  using assms by (simp add: check_circuit_breaker_def)

lemma record_download_failure_prefix:
  "record_download_failure error_type (self, w) = (self', w') \<Longrightarrow>
   prefix (events w) (events w')"
  by (auto simp: record_download_failure_def Let_def log_event_def split: if_splits)

lemma sleep_or_fail_prefix:
  "(sleep_or_fail n attempt max_retries (self, w) = Return r (self', w')
      \<longrightarrow> prefix (events w) (events w'))
   \<and> (sleep_or_fail n attempt max_retries (self, w) = Continue (self', w')
      \<longrightarrow> prefix (events w) (events w'))"
  by (auto simp: sleep_or_fail_def time_sleep_def log_event_def split: if_splits)

lemma sleep_or_fail_after_failure_prefix:
  assumes "sleep_or_fail n attempt max_retries (record_download_failure error_type (self, w))
             = t"
    and "t = Return r (self', w') \<or> t = Continue (self', w')"
  shows "prefix (events w) (events w')"
proof -
  obtain self1 w1 where r: "record_download_failure error_type (self, w) = (self1, w1)"
    by (cases "record_download_failure error_type (self, w)") auto
  have "prefix (events w) (events w1)" by (rule record_download_failure_prefix [OF r])
  moreover have "prefix (events w1) (events w')"
    using assms r sleep_or_fail_prefix [of n attempt max_retries self1 w1 r self' w']
    by auto
  ultimately show ?thesis by (rule prefix_order.trans)
qed

lemma attempt_once_prefix:
  assumes "attempt_once net max_retries request_start attempt (self, w) = t"
    and "t = Return r (self', w') \<or> t = Continue (self', w')"
  shows "prefix (events w @ [NetworkCall]) (events w')"
proof -
  obtain self1 w1 where b: "begin_attempt net attempt (self, w) = (self1, w1)"
    by (cases "begin_attempt net attempt (self, w)") auto
  from begin_attempt_fields [OF b] have e1: "events w1 = events w @ [NetworkCall]" by simp
  have "prefix (events w1) (events w')"
  proof (cases "snd (net attempt)")
    case (Downloaded n)
    with assms b show ?thesis
      by (auto simp: attempt_once_def Let_def)
  next
    case (HTTPError code)
    let ?s = "self1\<lparr>active_connections := active_connections self1 - 1\<rparr>"
    consider "code = 404" | "code = 418" | "code = 403" | "code = 429" | "code = 503"
      | "code \<noteq> 404 \<and> code \<noteq> 418 \<and> code \<noteq> 403 \<and> code \<noteq> 429 \<and> code \<noteq> 503"
      by blast
    then show ?thesis
    proof cases
      case 1
      with assms b HTTPError show ?thesis by (auto simp: attempt_once_def Let_def)
    next
      case 2
      obtain self2 w2 where r: "record_download_failure ''IP_BAN_418'' (?s, w1) = (self2, w2)"
        by (cases "record_download_failure ''IP_BAN_418'' (?s, w1)") auto
      from record_download_failure_prefix [OF r] assms b HTTPError 2 r
      show ?thesis by (auto simp: attempt_once_def Let_def)
    next
      case 3
      with assms b HTTPError
      have "sleep_or_fail (2 ^ attempt * 5) attempt max_retries
              (record_download_failure ''WAF_403'' (?s, w1)) = t"
        by (simp add: attempt_once_def Let_def)
      from sleep_or_fail_after_failure_prefix [OF this assms(2)] show ?thesis by simp
    next
      case 4
      with assms b HTTPError
      have "sleep_or_fail (2 ^ attempt * 5) attempt max_retries
              (record_download_failure ''RATE_LIMIT_429'' (?s, w1)) = t"
        by (simp add: attempt_once_def Let_def)
      from sleep_or_fail_after_failure_prefix [OF this assms(2)] show ?thesis by simp
    next
      case 5
      with assms b HTTPError
      have "sleep_or_fail (2 ^ attempt * 5) attempt max_retries
              (record_download_failure ''CLOUDFRONT_503'' (?s, w1)) = t"
        by (simp add: attempt_once_def Let_def)
      from sleep_or_fail_after_failure_prefix [OF this assms(2)] show ?thesis by simp
    next
      case 6
      with assms b HTTPError
      have "sleep_or_fail (2 ^ attempt) attempt max_retries (?s, w1) = t"
        by (simp add: attempt_once_def Let_def)
      with assms(2) sleep_or_fail_prefix [of "2 ^ attempt" attempt max_retries ?s w1 r self' w']
      show ?thesis by auto
    qed
  next
    case (URLError reason)
    let ?s = "self1\<lparr>active_connections := active_connections self1 - 1\<rparr>"
    show ?thesis
    proof (cases "contains (lower reason) ''ssl'' \<or> contains (lower reason) ''eof''
                    \<or> contains (lower reason) ''protocol''")
      case True
      with assms b URLError
      have "sleep_or_fail (2 ^ attempt * 5) attempt max_retries
              (record_download_failure ''SSL_ERROR_RATE_LIMIT'' (?s, w1)) = t"
        by (simp add: attempt_once_def Let_def)
      from sleep_or_fail_after_failure_prefix [OF this assms(2)] show ?thesis by simp
    next
      case False
      with assms b URLError
      have "sleep_or_fail (2 ^ attempt) attempt max_retries (?s, w1) = t"
        by (simp add: attempt_once_def Let_def)
      with assms(2) sleep_or_fail_prefix [of "2 ^ attempt" attempt max_retries ?s w1 r self' w']
      show ?thesis by auto
    qed
  next
    case (OtherException msg)
    let ?s = "self1\<lparr>active_connections := active_connections self1 - 1\<rparr>"
    show ?thesis
    proof (cases "contains (lower msg) ''ssl'' \<or> contains (lower msg) ''connection''
                    \<or> contains (lower msg) ''reset''")
      case True
      with assms b OtherException
      have "sleep_or_fail (2 ^ attempt) attempt max_retries
              (record_download_failure ''CONNECTION_ERROR'' (?s, w1)) = t"
        by (simp add: attempt_once_def Let_def)
      from sleep_or_fail_after_failure_prefix [OF this assms(2)] show ?thesis by simp
    next
      case False
      with assms b OtherException
      have "sleep_or_fail (2 ^ attempt) attempt max_retries (?s, w1) = t"
        by (simp add: attempt_once_def Let_def)
      with assms(2) sleep_or_fail_prefix [of "2 ^ attempt" attempt max_retries ?s w1 r self' w']
      show ?thesis by auto
    qed
  qed
  with e1 show ?thesis by simp
qed

lemma attempt_once_prefix_Return:
  "attempt_once net max_retries request_start attempt (self, w) = Return r (self', w') \<Longrightarrow>
   prefix (events w @ [NetworkCall]) (events w')"
  using attempt_once_prefix [where r = r and self' = self' and w' = w'] by blast

lemma attempt_once_prefix_Continue:
  "attempt_once net max_retries request_start attempt (self, w) = Continue (self', w') \<Longrightarrow>
   prefix (events w @ [NetworkCall]) (events w')"
  using attempt_once_prefix [where self' = self' and w' = w'] by blast

lemma attempts_loop_prefix:
  "attempts_loop net max_retries request_start attempt (self, w) = (r, self', w') \<Longrightarrow>
   prefix (events w) (events w')"
proof (induction net max_retries request_start attempt "(self, w)"
       arbitrary: self w rule: attempts_loop.induct)
  case (1 net max_retries request_start attempt)
  show ?case
  proof (cases "attempt < max_retries")
    case False
    with 1(2) show ?thesis by (simp add: attempts_loop.simps)
  next
    case True
    show ?thesis
    proof (cases "attempt_once net max_retries request_start attempt (self, w)")
      case (Return r1 s1)
      with 1(2) True have "s1 = (self', w')"
        by (simp add: attempts_loop_Return)
      with Return have "prefix (events w @ [NetworkCall]) (events w')"
        by (simp add: attempt_once_prefix_Return)
      then show ?thesis by (rule append_prefixD)
    next
      case (Continue s1)
      obtain self1 w1 where s1: "s1 = (self1, w1)" by (cases s1) auto
      from Continue s1 have "prefix (events w @ [NetworkCall]) (events w1)"
        by (simp add: attempt_once_prefix_Continue)
      then have p1: "prefix (events w) (events w1)" by (rule append_prefixD)
      from 1(2) True Continue s1
      have "attempts_loop net max_retries request_start (Suc attempt) (self1, w1) = (r, self', w')"
        by (simp add: attempts_loop_Continue)
      moreover from Continue s1
      have "attempt_once net max_retries request_start attempt (self, w) = Continue (self1, w1)"
        by simp
      ultimately have "prefix (events w1) (events w')"
        using 1(1) [OF True] by blast
      with p1 show ?thesis by (rule prefix_order.trans)
    qed
  qed
qed

lemma attempts_loop_first_call:
  assumes "attempt < max_retries"
    and "attempts_loop net max_retries request_start attempt (self, w) = (r, self', w')"
  shows "prefix (events w @ [NetworkCall]) (events w')"
proof (cases "attempt_once net max_retries request_start attempt (self, w)")
  case (Return r1 s1)
  with assms have "s1 = (self', w')" by (simp add: attempts_loop_Return)
  with Return show ?thesis by (simp add: attempt_once_prefix_Return)
next
  case (Continue s1)
  obtain self1 w1 where s1: "s1 = (self1, w1)" by (cases s1) auto
  from Continue s1 have p1: "prefix (events w @ [NetworkCall]) (events w1)"
    by (simp add: attempt_once_prefix_Continue)
  from assms Continue s1
  have "attempts_loop net max_retries request_start (Suc attempt) (self1, w1) = (r, self', w')"
    by (simp add: attempts_loop_Continue)
  from attempts_loop_prefix [OF this] p1 show ?thesis by (rule prefix_order.trans [rotated])
qed

section \<open>Back-off after a rate-limit error\<close>




section \<open>The breaker and the start of a download\<close>

text \<open>
  C1. The claim says that no network call is ever made while the breaker is open.
  The breaker is asked once, at the start of \<^verbatim>\<open>_download_raw_file\<close>, and not again
  inside the retry loop. A fresh object first fails a file with three responses
  429 (the counter is 3, the breaker closed). The next download gets 429 again:
  its second attempt brings the counter to 5 and opens the breaker, and the loop
  still sleeps 10 seconds and makes its third network call.
\<close>

theorem breaker_open_during_retries_example:
  "(case download_raw_file (\<lambda>k. (1, HTTPError 429)) 3
          (example_dumper, \<lparr>clock = 1700000000, events = []\<rparr>) of
      (r1, self1, w1) \<Rightarrow>
        (r1, circuit_breaker_failures self1, is_circuit_broken self1,
         events (snd (snd (download_raw_file (\<lambda>k. (1, HTTPError 429)) 3
           (self1, w1\<lparr>events := []\<rparr>))))))
   = (0, 3, False,
      [NetworkCall, RecordFailure ''RATE_LIMIT_429'', Sleep 5,
       NetworkCall, RecordFailure ''RATE_LIMIT_429'', BreakerTriggered, Sleep 10,
       NetworkCall, RecordFailure ''RATE_LIMIT_429''])"
  by (simp add: download_simps example_dumper_eq)

text \<open>
  C1, as the code has it, for an object with threshold 5 and cooldown 300 seconds.
  After 5 consecutive recorded failures the breaker is open, and a download that
  starts less than 300 seconds after the last of them returns 0 at once, its only
  event the log line of the skip. Every download that starts while the breaker is
  open and less than 300 seconds after the last recorded failure returns 0 with
  the object unchanged and no network call. Once 300 seconds or more have passed
  since the last recorded failure (a non-zero time stamp), the check closes the
  breaker and sets the counter to 0, and that download makes a network call.
\<close>

theorem breaker_gates_download_calls:
  assumes thr: "circuit_breaker_threshold self = 5"
    and rt: "circuit_breaker_reset_time self = 300"
  shows
   "(\<forall>fs self1 w1 now.
        length fs = 5 \<and> record_failures_at fs (self, w) = (self1, w1)
        \<and> now - snd (last fs) < 300 \<longrightarrow>
        is_circuit_broken self1
        \<and> download_raw_file net max_retries (self1, w1\<lparr>clock := now\<rparr>)
            = (0, self1, log_event SkippedOpen (w1\<lparr>clock := now\<rparr>)))
    \<and> (\<forall>t. is_circuit_broken self \<and> circuit_breaker_last_failure self = Some t
          \<and> clock w - t < 300 \<longrightarrow>
        download_raw_file net max_retries (self, w) = (0, self, log_event SkippedOpen w)
        \<and> network_calls (new_events w (log_event SkippedOpen w)) = 0)
    \<and> (\<forall>t. is_circuit_broken self \<and> circuit_breaker_last_failure self = Some t
          \<and> t \<noteq> 0 \<and> 300 \<le> clock w - t \<longrightarrow>
        check_circuit_breaker (self, w)
          = (False, self\<lparr>is_circuit_broken := False, circuit_breaker_failures := 0\<rparr>,
             log_event BreakerReset w)
        \<and> (0 < max_retries \<longrightarrow>
             (\<exists>r self' w' rest.
                download_raw_file net max_retries (self, w) = (r, self', w')
                \<and> new_events w w' = BreakerReset # NetworkCall # rest)))"
proof (intro conjI allI impI)
  fix fs self1 w1 now
  assume a: "length fs = 5 \<and> record_failures_at fs (self, w) = (self1, w1)
        \<and> now - snd (last fs) < 300"
  then have ne: "fs \<noteq> []" by auto
  from a have r: "record_failures_at fs (self, w) = (self1, w1)" by simp
  note f = record_failures_at_fields [OF r]
  from f ne a thr show b: "is_circuit_broken self1" by simp
  from f ne have lf: "circuit_breaker_last_failure self1 = Some (snd (last fs))" by simp
  from f rt have "circuit_breaker_reset_time self1 = 300" by simp
  with a have "snd (last fs) = 0
      \<or> clock (w1\<lparr>clock := now\<rparr>) - snd (last fs) < circuit_breaker_reset_time self1"
    by simp
  from download_skipped_when_open [OF b lf this]
  show "download_raw_file net max_retries (self1, w1\<lparr>clock := now\<rparr>)
            = (0, self1, log_event SkippedOpen (w1\<lparr>clock := now\<rparr>))" .
next
  fix t
  assume a: "is_circuit_broken self \<and> circuit_breaker_last_failure self = Some t
          \<and> clock w - t < 300"
  with rt have "t = 0 \<or> clock w - t < circuit_breaker_reset_time self" by simp
  with a show "download_raw_file net max_retries (self, w) = (0, self, log_event SkippedOpen w)"
    by (simp add: download_skipped_when_open)
  show "network_calls (new_events w (log_event SkippedOpen w)) = 0"
    by (simp add: new_events_def log_event_def)
next
  fix t
  assume a: "is_circuit_broken self \<and> circuit_breaker_last_failure self = Some t
          \<and> t \<noteq> 0 \<and> 300 \<le> clock w - t"
  with rt show c: "check_circuit_breaker (self, w)
          = (False, self\<lparr>is_circuit_broken := False, circuit_breaker_failures := 0\<rparr>,
             log_event BreakerReset w)"
    by (simp add: check_resets_after_cooldown)
  assume m: "0 < max_retries"
  obtain self0 where d: "download_raw_file net max_retries (self, w)
      = attempts_loop net max_retries (clock (log_event BreakerReset w)) 0
          (self0, log_event BreakerReset w)"
    using download_raw_file_started [OF c, of net max_retries] by blast
  obtain r self' w' where l: "attempts_loop net max_retries (clock (log_event BreakerReset w)) 0
          (self0, log_event BreakerReset w) = (r, self', w')"
    by (cases "attempts_loop net max_retries (clock (log_event BreakerReset w)) 0
          (self0, log_event BreakerReset w)") auto
  from attempts_loop_first_call [OF m l]
  obtain rest where "events w' = (events (log_event BreakerReset w) @ [NetworkCall]) @ rest"
    by (auto simp: prefix_def)
  then have "events w' = events w @ (BreakerReset # NetworkCall # rest)"
    by (simp add: log_event_def)
  then have "new_events w w' = BreakerReset # NetworkCall # rest"
    by (rule new_events_append)
  with d l show "\<exists>r self' w' rest.
                download_raw_file net max_retries (self, w) = (r, self', w')
                \<and> new_events w w' = BreakerReset # NetworkCall # rest"
    by auto
qed

theorem breaker_gates_download_calls_witness:
  "circuit_breaker_threshold example_dumper = 5
   \<and> circuit_breaker_reset_time example_dumper = 300
   \<and> (\<exists>self1 w1.
        record_failures_at
          [(''RATE_LIMIT_429'', 1700000001), (''RATE_LIMIT_429'', 1700000002),
           (''WAF_403'', 1700000003), (''CLOUDFRONT_503'', 1700000004),
           (''RATE_LIMIT_429'', 1700000005)]
          (example_dumper, \<lparr>clock = 1700000000, events = []\<rparr>) = (self1, w1)
        \<and> is_circuit_broken self1
        \<and> download_raw_file (\<lambda>k. (1, Downloaded 1000)) 3 (self1, w1\<lparr>clock := 1700000100\<rparr>)
            = (0, self1, log_event SkippedOpen (w1\<lparr>clock := 1700000100\<rparr>))
        \<and> (\<exists>r self' w' rest.
              download_raw_file (\<lambda>k. (1, Downloaded 1000)) 3 (self1, w1\<lparr>clock := 1700000400\<rparr>)
                = (r, self', w')
              \<and> new_events (w1\<lparr>clock := 1700000400\<rparr>) w' = BreakerReset # NetworkCall # rest))"
proof -
  let ?fs = "[(''RATE_LIMIT_429'', 1700000001 :: real), (''RATE_LIMIT_429'', 1700000002),
           (''WAF_403'', 1700000003), (''CLOUDFRONT_503'', 1700000004),
           (''RATE_LIMIT_429'', 1700000005)]"
  let ?w = "\<lparr>clock = 1700000000, events = []\<rparr>"
  let ?net = "\<lambda>k::nat. (1::real, Downloaded 1000)"
  have thr: "circuit_breaker_threshold example_dumper = 5"
    and rt: "circuit_breaker_reset_time example_dumper = 300"
    by (simp_all add: example_dumper_eq)
  obtain self1 w1 where r: "record_failures_at ?fs (example_dumper, ?w) = (self1, w1)"
    by (cases "record_failures_at ?fs (example_dumper, ?w)") auto
  note f = record_failures_at_fields [OF r]
  have thr1: "circuit_breaker_threshold self1 = 5"
    and rt1: "circuit_breaker_reset_time self1 = 300"
    and lf1: "circuit_breaker_last_failure self1 = Some 1700000005"
    using f thr rt by simp_all
  have len: "length ?fs = 5" by simp
  have lt: "1700000100 - snd (last ?fs) < 300" by simp
  from breaker_gates_download_calls [OF thr rt, of ?w ?net 3]
  have "\<forall>fs self1 w1 now.
        length fs = 5 \<and> record_failures_at fs (example_dumper, ?w) = (self1, w1)
        \<and> now - snd (last fs) < 300 \<longrightarrow>
        is_circuit_broken self1
        \<and> download_raw_file ?net 3 (self1, w1\<lparr>clock := now\<rparr>)
            = (0, self1, log_event SkippedOpen (w1\<lparr>clock := now\<rparr>))"
    by (rule conjunct1)
  from this [rule_format, OF conjI [OF len conjI [OF r lt]]]
  have p1: "is_circuit_broken self1
        \<and> download_raw_file ?net 3 (self1, w1\<lparr>clock := 1700000100\<rparr>)
            = (0, self1, log_event SkippedOpen (w1\<lparr>clock := 1700000100\<rparr>))" .
  then have b1: "is_circuit_broken self1" by simp
  from breaker_gates_download_calls [OF thr1 rt1, of "w1\<lparr>clock := 1700000400\<rparr>" ?net 3]
  have "\<forall>t. is_circuit_broken self1 \<and> circuit_breaker_last_failure self1 = Some t
          \<and> t \<noteq> 0 \<and> 300 \<le> clock (w1\<lparr>clock := 1700000400\<rparr>) - t \<longrightarrow>
        (0 < (3::nat) \<longrightarrow>
             (\<exists>r self' w' rest.
                download_raw_file ?net 3 (self1, w1\<lparr>clock := 1700000400\<rparr>) = (r, self', w')
                \<and> new_events (w1\<lparr>clock := 1700000400\<rparr>) w' = BreakerReset # NetworkCall # rest))"
    by blast
  with b1 lf1
  have p3: "\<exists>r self' w' rest.
                download_raw_file ?net 3 (self1, w1\<lparr>clock := 1700000400\<rparr>) = (r, self', w')
                \<and> new_events (w1\<lparr>clock := 1700000400\<rparr>) w' = BreakerReset # NetworkCall # rest"
    by simp
  from thr rt r p1 p3 show ?thesis by blast
qed

section \<open>The constructor and the file names\<close>

lemmas init_simps =
  BinanceDataDumper_init_def ASSET_CLASSES_def FUTURES_ASSET_CLASSES_def
  DICT_DATA_TYPES_BY_ASSET_def DATA_FREQUENCY_NEEDED_FOR_TYPE_def DATA_FREQUENCY_ENUM_def

lemma init_non_kline_cases:
  assumes "data_type_arg \<notin> set DATA_FREQUENCY_NEEDED_FOR_TYPE"
  shows "BinanceDataDumper_init path_dir asset_class_arg data_type_arg data_frequency_arg mcd
         = (if asset_class_arg \<notin> set (ASSET_CLASSES @ FUTURES_ASSET_CLASSES)
            then Inl Unknown_asset_class
            else case map_of DICT_DATA_TYPES_BY_ASSET asset_class_arg of
                   None \<Rightarrow> Inl KeyError
                 | Some data_types \<Rightarrow>
                     if data_type_arg \<notin> set data_types then Inl Unknown_data_type
                     else Inr \<lparr>
               path_dir_where_to_dump = path_dir,
               dict_new_points_saved_by_ticker = (\<lambda>ticker. Map.empty),
               base_url = ''https://data.binance.vision/data'',
               asset_class = asset_class_arg,
               data_type = data_type_arg,
               data_frequency = [],
               max_concurrent_downloads =
                 (case mcd of
                    None \<Rightarrow> (if data_type_arg = ''trades'' then 1 else 5)
                  | Some n \<Rightarrow> n),
               circuit_breaker_failures = 0,
               circuit_breaker_threshold = 5,
               circuit_breaker_reset_time = 300,
               circuit_breaker_last_failure = None,
               is_circuit_broken = False,
               request_count = 0,
               successful_requests = 0,
               failed_requests = 0,
               not_found_requests = 0,
               active_connections = 0,
               max_concurrent_connections = 0,
               request_start_time = None,
               request_timings = [],
               bytes_downloaded = 0 \<rparr>)"
  using assms by (simp add: BinanceDataDumper_init_def split: option.splits)

text \<open>
  C10. For a data type outside the kline family the frequency check of the
  constructor is never reached: the constructor never raises the error of an
  unknown frequency, its outcome is the same for every value of the frequency
  argument, it builds an object whenever the data type is one of its asset class,
  and the object it builds stores the empty frequency, so that every file name
  carries the data type between the ticker and the date.
\<close>

theorem non_kline_frequency_ignored:
  assumes "data_type_arg \<notin> set DATA_FREQUENCY_NEEDED_FOR_TYPE"
  shows "BinanceDataDumper_init path_dir asset_class_arg data_type_arg data_frequency_arg mcd
           \<noteq> Inl Unknown_data_frequency
     \<and> BinanceDataDumper_init path_dir asset_class_arg data_type_arg data_frequency_arg mcd
         = BinanceDataDumper_init path_dir asset_class_arg data_type_arg other_frequency mcd
     \<and> ((\<exists>data_types. map_of DICT_DATA_TYPES_BY_ASSET asset_class_arg = Some data_types
            \<and> data_type_arg \<in> set data_types) \<longrightarrow>
         (\<exists>self. BinanceDataDumper_init path_dir asset_class_arg data_type_arg
                    data_frequency_arg mcd = Inr self))
     \<and> (\<forall>self. BinanceDataDumper_init path_dir asset_class_arg data_type_arg
                   data_frequency_arg mcd = Inr self \<longrightarrow>
           data_frequency self = [] \<and> data_type self = data_type_arg
           \<and> (\<forall>ticker date_obj timeperiod_per_file extension.
                 create_filename self ticker date_obj timeperiod_per_file extension
                 = ticker @ ''-'' @ data_type_arg @ ''-''
                   @ (if timeperiod_per_file = ''monthly'' then strftime_Y_m date_obj
                      else strftime_Y_m_d date_obj)
                   @ ''.'' @ extension))"
proof (intro conjI)
  note c = init_non_kline_cases [OF assms]
  show "BinanceDataDumper_init path_dir asset_class_arg data_type_arg data_frequency_arg mcd
           \<noteq> Inl Unknown_data_frequency"
    by (simp add: c split: option.splits)
  show "BinanceDataDumper_init path_dir asset_class_arg data_type_arg data_frequency_arg mcd
         = BinanceDataDumper_init path_dir asset_class_arg data_type_arg other_frequency mcd"
    by (simp add: c)
  show "(\<exists>data_types. map_of DICT_DATA_TYPES_BY_ASSET asset_class_arg = Some data_types
            \<and> data_type_arg \<in> set data_types) \<longrightarrow>
         (\<exists>self. BinanceDataDumper_init path_dir asset_class_arg data_type_arg
                    data_frequency_arg mcd = Inr self)"
  proof
    assume "\<exists>data_types. map_of DICT_DATA_TYPES_BY_ASSET asset_class_arg = Some data_types
            \<and> data_type_arg \<in> set data_types"
    then obtain data_types where m: "map_of DICT_DATA_TYPES_BY_ASSET asset_class_arg = Some data_types"
      and d: "data_type_arg \<in> set data_types" by blast
    from m have "asset_class_arg \<in> set (ASSET_CLASSES @ FUTURES_ASSET_CLASSES)"
      by (auto simp: DICT_DATA_TYPES_BY_ASSET_def ASSET_CLASSES_def FUTURES_ASSET_CLASSES_def
          split: if_splits)
    with m d show "\<exists>self. BinanceDataDumper_init path_dir asset_class_arg data_type_arg
                    data_frequency_arg mcd = Inr self"
      by (simp add: c)
  qed
  show "\<forall>self. BinanceDataDumper_init path_dir asset_class_arg data_type_arg
                   data_frequency_arg mcd = Inr self \<longrightarrow>
           data_frequency self = [] \<and> data_type self = data_type_arg
           \<and> (\<forall>ticker date_obj timeperiod_per_file extension.
                 create_filename self ticker date_obj timeperiod_per_file extension
                 = ticker @ ''-'' @ data_type_arg @ ''-''
                   @ (if timeperiod_per_file = ''monthly'' then strftime_Y_m date_obj
                      else strftime_Y_m_d date_obj)
                   @ ''.'' @ extension)"
    by (auto simp: c create_filename_def Let_def split: if_splits option.splits)
qed

theorem non_kline_frequency_ignored_witness:
  "''fundingRate'' \<notin> set DATA_FREQUENCY_NEEDED_FOR_TYPE
   \<and> (\<exists>self. BinanceDataDumper_init ''data'' ''um'' ''fundingRate'' ''not-a-frequency'' (Some 3)
               = Inr self
        \<and> data_frequency self = []
        \<and> create_filename self ''BTCUSDT'' (2024, 1, 1) ''monthly'' ''csv''
            = ''BTCUSDT-fundingRate-2024-01.csv'')"
proof -
  have h: "''fundingRate'' \<notin> set DATA_FREQUENCY_NEEDED_FOR_TYPE"
    by (simp add: DATA_FREQUENCY_NEEDED_FOR_TYPE_def)
  note t = non_kline_frequency_ignored [OF h, of "''data''" "''um''" "''not-a-frequency''" "Some 3"]
  have "\<exists>data_types. map_of DICT_DATA_TYPES_BY_ASSET ''um'' = Some data_types
            \<and> ''fundingRate'' \<in> set data_types"
    by (simp add: DICT_DATA_TYPES_BY_ASSET_def)
  with t obtain self where
    s: "BinanceDataDumper_init ''data'' ''um'' ''fundingRate'' ''not-a-frequency'' (Some 3) = Inr self"
    by blast
  with t have "data_frequency self = []"
    and "create_filename self ''BTCUSDT'' (2024, 1, 1) ''monthly'' ''csv''
           = ''BTCUSDT'' @ ''-'' @ ''fundingRate'' @ ''-''
               @ (if ''monthly'' = ''monthly'' then strftime_Y_m (2024, 1, 1)
                  else strftime_Y_m_d (2024, 1, 1)) @ ''.'' @ ''csv''"
    by blast+
  moreover have "strftime_Y_m (2024, 1, 1) = ''2024-01''"
    by (simp add: strftime_Y_m_def zfill_def str_nat.simps year_def month_def)
  ultimately show ?thesis using h s by simp
qed

section \<open>The remote floor of a ticker\<close>

lemma Min_insert_absorb:
  fixes x :: "'a :: linorder"
  assumes "finite A" and "y \<in> A" and "y \<le> x"
  shows "Min (insert x A) = Min A"
proof -
  have "A \<noteq> {}" using assms(2) by auto
  moreover have "Min A \<le> x" using Min_le [OF assms(1) assms(2)] assms(3) by (rule order_trans)
  ultimately show ?thesis using assms(1) by (simp add: min_absorb2)
qed

lemma scan_monthly_all_parse:
  "map monthly_date_of files = map Some ds \<Longrightarrow>
   scan_monthly files min_date date_found
     = (Min (insert min_date (set ds)), date_found \<or> (\<exists>d \<in> set ds. d < min_date), False)"
proof (induction files arbitrary: ds min_date date_found)
  case Nil
  then show ?case by simp
next
  case (Cons f files)
  then obtain d ds' where ds: "ds = d # ds'" and p: "monthly_date_of f = Some d"
    and rest: "map monthly_date_of files = map Some ds'"
    by (cases ds) auto
  note IH = Cons.IH [OF rest]
  show ?case
  proof (cases "d < min_date")
    case True
    have "Min (insert min_date (insert d (set ds'))) = Min (insert d (set ds'))"
      using True by (intro Min_insert_absorb [of _ d]) simp_all
    with True p IH [of d True] show ?thesis by (simp add: ds)
  next
    case False
    have "Min (insert min_date (insert d (set ds'))) = Min (insert min_date (set ds'))"
    proof -
      have "Min (insert d (insert min_date (set ds'))) = Min (insert min_date (set ds'))"
        using False by (intro Min_insert_absorb [of _ min_date]) simp_all
      then show ?thesis by (simp add: insert_commute)
    qed
    with False p IH [of min_date date_found] show ?thesis by (auto simp: ds)
  qed
qed

lemma scan_daily_all_parse:
  "map daily_date_of files = map Some ds \<Longrightarrow>
   scan_daily files min_date = Min (insert min_date (set ds))"
proof (induction files arbitrary: ds min_date)
  case Nil
  then show ?case by simp
next
  case (Cons f files)
  then obtain d ds' where ds: "ds = d # ds'" and p: "daily_date_of f = Some d"
    and rest: "map daily_date_of files = map Some ds'"
    by (cases ds) auto
  note IH = Cons.IH [OF rest]
  show ?case
  proof (cases "d < min_date")
    case True
    have "Min (insert min_date (insert d (set ds'))) = Min (insert d (set ds'))"
      using True by (intro Min_insert_absorb [of _ d]) simp_all
    with True p IH [of d] show ?thesis by (simp add: ds)
  next
    case False
    have "Min (insert min_date (insert d (set ds'))) = Min (insert min_date (set ds'))"
    proof -
      have "Min (insert d (insert min_date (set ds'))) = Min (insert min_date (set ds'))"
        using False by (intro Min_insert_absorb [of _ min_date]) simp_all
      then show ?thesis by (simp add: insert_commute)
    qed
    with False p IH [of min_date] show ?thesis by (simp add: ds)
  qed
qed

lemmas parse_simps =
  monthly_date_of_def daily_date_of_def strptime_Y_m_def strptime_Y_m_d_def split_head_def
  last_n_def parse_year_def parse_month_def parse_day_def is_digit_def int_of_digits_def
  digit_val_def

lemmas path_simps =
  get_path_suffix_to_dir_with_data_def get_local_dir_to_data_def os_path_join_def
  FUTURES_ASSET_CLASSES_def Let_def

text \<open>
  C7. The claim is that the floor is today's date when the remote has no object for
  the ticker. The source starts from the first day of the current month
  (\<^verbatim>\<open>datetime(today.year, today.month, 1)\<close>) and returns it unchanged in that case:
  on 2024-05-17 an empty catalog gives 2024-05-01.
\<close>

theorem remote_floor_is_first_of_month_example:
  "get_min_start_date_for_ticker example_dumper
     \<lparr>utcnow_date = (2024, 5, 17), today = (2024, 5, 17),
      available_files = (\<lambda>prefix. Inr []), local_files = {}\<rparr> ''BTCUSDT''
   = (2024, 5, 1)"
  by (simp add: get_min_start_date_for_ticker_def Let_def first_day_of_month_def
      year_def month_def)

text \<open>
  C7, as the code has it, for catalogs whose keys all carry a date that parses.
  If the catalog query for the monthly objects raises, the floor is the first day
  of the current month. If a monthly object is dated before the first day of the
  current month, the floor is the earliest date among the monthly objects. If no
  monthly object is dated before it, the floor is the earlier of the first day of
  the current month and the earliest date among the daily objects; with no object
  at all it is the first day of the current month, and so it is when the query
  for the daily objects raises.
\<close>

theorem remote_floor_cases:
  "(\<forall>err. available_files e (get_path_suffix_to_dir_with_data self ''monthly'' ticker) = Inl err
      \<longrightarrow> get_min_start_date_for_ticker self e ticker = first_day_of_month (today e))
   \<and> (\<forall>files dm.
        available_files e (get_path_suffix_to_dir_with_data self ''monthly'' ticker) = Inr files
        \<and> map monthly_date_of files = map Some dm
        \<and> (\<exists>d \<in> set dm. d < first_day_of_month (today e))
      \<longrightarrow> get_min_start_date_for_ticker self e ticker = Min (set dm))
   \<and> (\<forall>files dm files' dd.
        available_files e (get_path_suffix_to_dir_with_data self ''monthly'' ticker) = Inr files
        \<and> map monthly_date_of files = map Some dm
        \<and> (\<forall>d \<in> set dm. first_day_of_month (today e) \<le> d)
        \<and> available_files e (get_path_suffix_to_dir_with_data self ''daily'' ticker) = Inr files'
        \<and> map daily_date_of files' = map Some dd
      \<longrightarrow> get_min_start_date_for_ticker self e ticker
            = Min (insert (first_day_of_month (today e)) (set dd)))
   \<and> (available_files e (get_path_suffix_to_dir_with_data self ''monthly'' ticker) = Inr []
        \<and> available_files e (get_path_suffix_to_dir_with_data self ''daily'' ticker) = Inr []
      \<longrightarrow> get_min_start_date_for_ticker self e ticker = first_day_of_month (today e))
   \<and> (\<forall>files dm err.
        available_files e (get_path_suffix_to_dir_with_data self ''monthly'' ticker) = Inr files
        \<and> map monthly_date_of files = map Some dm
        \<and> (\<forall>d \<in> set dm. first_day_of_month (today e) \<le> d)
        \<and> available_files e (get_path_suffix_to_dir_with_data self ''daily'' ticker) = Inl err
      \<longrightarrow> get_min_start_date_for_ticker self e ticker = first_day_of_month (today e))"
proof (intro conjI allI impI)
  fix err
  assume "available_files e (get_path_suffix_to_dir_with_data self ''monthly'' ticker) = Inl err"
  then show "get_min_start_date_for_ticker self e ticker = first_day_of_month (today e)"
    by (simp add: get_min_start_date_for_ticker_def)
next
  fix files dm
  assume a: "available_files e (get_path_suffix_to_dir_with_data self ''monthly'' ticker) = Inr files
        \<and> map monthly_date_of files = map Some dm
        \<and> (\<exists>d \<in> set dm. d < first_day_of_month (today e))"
  then obtain d where d: "d \<in> set dm" "d < first_day_of_month (today e)" by blast
  have "Min (insert (first_day_of_month (today e)) (set dm)) = Min (set dm)"
    using d by (intro Min_insert_absorb [of _ d]) simp_all
  with a show "get_min_start_date_for_ticker self e ticker = Min (set dm)"
    by (simp add: get_min_start_date_for_ticker_def Let_def
        scan_monthly_all_parse [of files dm])
next
  fix files dm files' dd
  assume a: "available_files e (get_path_suffix_to_dir_with_data self ''monthly'' ticker) = Inr files
        \<and> map monthly_date_of files = map Some dm
        \<and> (\<forall>d \<in> set dm. first_day_of_month (today e) \<le> d)
        \<and> available_files e (get_path_suffix_to_dir_with_data self ''daily'' ticker) = Inr files'
        \<and> map daily_date_of files' = map Some dd"
  then have nf: "\<not> (\<exists>d \<in> set dm. d < first_day_of_month (today e))" by auto
  have "Min (insert (first_day_of_month (today e)) (set dm)) = first_day_of_month (today e)"
    using a by (intro Min_eqI) auto
  with a nf show "get_min_start_date_for_ticker self e ticker
            = Min (insert (first_day_of_month (today e)) (set dd))"
    by (simp add: get_min_start_date_for_ticker_def Let_def
        scan_monthly_all_parse [of files dm] scan_daily_all_parse [of files' dd])
next
  assume "available_files e (get_path_suffix_to_dir_with_data self ''monthly'' ticker) = Inr []
        \<and> available_files e (get_path_suffix_to_dir_with_data self ''daily'' ticker) = Inr []"
  then show "get_min_start_date_for_ticker self e ticker = first_day_of_month (today e)"
    by (simp add: get_min_start_date_for_ticker_def Let_def)
next
  fix files dm err
  assume a: "available_files e (get_path_suffix_to_dir_with_data self ''monthly'' ticker) = Inr files
        \<and> map monthly_date_of files = map Some dm
        \<and> (\<forall>d \<in> set dm. first_day_of_month (today e) \<le> d)
        \<and> available_files e (get_path_suffix_to_dir_with_data self ''daily'' ticker) = Inl err"
  then have nf: "\<not> (\<exists>d \<in> set dm. d < first_day_of_month (today e))" by auto
  have "Min (insert (first_day_of_month (today e)) (set dm)) = first_day_of_month (today e)"
    using a by (intro Min_eqI) auto
  with a nf show "get_min_start_date_for_ticker self e ticker = first_day_of_month (today e)"
    by (simp add: get_min_start_date_for_ticker_def Let_def
        scan_monthly_all_parse [of files dm])
qed

theorem remote_floor_cases_witness:
  "available_files
     \<lparr>utcnow_date = (2024, 5, 17), today = (2024, 5, 17),
      available_files = (\<lambda>prefix. if prefix = ''spot/monthly/klines/BTCUSDT/1m''
         then Inr [''data/spot/monthly/klines/BTCUSDT/1m/BTCUSDT-1m-2017-09.zip'',
                   ''data/spot/monthly/klines/BTCUSDT/1m/BTCUSDT-1m-2017-08.zip.CHECKSUM'']
         else Inl Catalog_error),
      local_files = {}\<rparr>
     (get_path_suffix_to_dir_with_data example_dumper ''monthly'' ''BTCUSDT'')
   = Inr [''data/spot/monthly/klines/BTCUSDT/1m/BTCUSDT-1m-2017-09.zip'',
          ''data/spot/monthly/klines/BTCUSDT/1m/BTCUSDT-1m-2017-08.zip.CHECKSUM'']
   \<and> map monthly_date_of
         [''data/spot/monthly/klines/BTCUSDT/1m/BTCUSDT-1m-2017-09.zip'',
          ''data/spot/monthly/klines/BTCUSDT/1m/BTCUSDT-1m-2017-08.zip.CHECKSUM'']
       = map Some [(2017, 9, 1), (2017, 8, 1)]
   \<and> ((2017, 8, 1) :: date) < first_day_of_month (2024, 5, 17)
   \<and> get_min_start_date_for_ticker example_dumper
        \<lparr>utcnow_date = (2024, 5, 17), today = (2024, 5, 17),
         available_files = (\<lambda>prefix. if prefix = ''spot/monthly/klines/BTCUSDT/1m''
            then Inr [''data/spot/monthly/klines/BTCUSDT/1m/BTCUSDT-1m-2017-09.zip'',
                      ''data/spot/monthly/klines/BTCUSDT/1m/BTCUSDT-1m-2017-08.zip.CHECKSUM'']
            else Inl Catalog_error),
         local_files = {}\<rparr> ''BTCUSDT''
       = (2017, 8, 1)"
proof -
  let ?files = "[''data/spot/monthly/klines/BTCUSDT/1m/BTCUSDT-1m-2017-09.zip'',
                 ''data/spot/monthly/klines/BTCUSDT/1m/BTCUSDT-1m-2017-08.zip.CHECKSUM'']"
  let ?e = "\<lparr>utcnow_date = (2024, 5, 17), today = (2024, 5, 17),
      available_files = (\<lambda>prefix. if prefix = ''spot/monthly/klines/BTCUSDT/1m''
         then Inr ?files else Inl Catalog_error),
      local_files = {}\<rparr>"
  have h1: "available_files ?e (get_path_suffix_to_dir_with_data example_dumper ''monthly'' ''BTCUSDT'')
      = Inr ?files"
    by (simp add: path_simps example_dumper_eq)
  have h2: "map monthly_date_of ?files = map Some [(2017, 9, 1), (2017, 8, 1)]"
    by (simp add: parse_simps)
  have h3: "((2017, 8, 1) :: date) < first_day_of_month (2024, 5, 17)"
    by (simp add: first_day_of_month_def year_def month_def)
  then have h3': "\<exists>d \<in> set [(2017, 9, 1), (2017, 8, 1)]. d < first_day_of_month (today ?e)"
    by simp
  from remote_floor_cases [of ?e example_dumper "''BTCUSDT''"]
  have "\<forall>files dm.
        available_files ?e (get_path_suffix_to_dir_with_data example_dumper ''monthly'' ''BTCUSDT'')
          = Inr files
        \<and> map monthly_date_of files = map Some dm
        \<and> (\<exists>d \<in> set dm. d < first_day_of_month (today ?e))
      \<longrightarrow> get_min_start_date_for_ticker example_dumper ?e ''BTCUSDT'' = Min (set dm)"
    by (elim conjE)
  from this [rule_format, OF conjI [OF h1 conjI [OF h2 h3']]]
  have "get_min_start_date_for_ticker example_dumper ?e ''BTCUSDT''
      = Min (set [(2017, 9, 1), (2017, 8, 1)])" .
  also have "\<dots> = (2017, 8, 1)" by simp
  finally show ?thesis using h1 h2 h3 by blast
qed

section \<open>The pending dates of a second run\<close>

lemmas filename_simps =
  create_filename_def strftime_Y_m_def strftime_Y_m_d_def zfill_def str_nat.simps

lemma inventory_monthly_day1:
  assumes "get_all_dates_with_data_for_ticker self e ticker ''monthly'' = Inr ds"
  shows "\<forall>d \<in> set ds. day d = 1"
proof -
  from assms obtain l where l: "dates_loop (2017, 1, 1) (utcnow_date e) ''monthly'' = Inr l"
    and sub: "set ds \<subseteq> set l"
    by (auto simp: get_all_dates_with_data_for_ticker_def create_list_dates_for_timeperiod_def
        Let_def split: sum.splits)
  from l have "l = dates_from (2017, 1, 1) (utcnow_date e) ''monthly''" by (rule dates_loop_Inr)
  moreover have "day (2017, 1, 1) = 1" by (simp add: day_def)
  ultimately have "\<forall>d \<in> set l. day d = 1"
    using dates_from_monthly_day1 by blast
  with sub show ?thesis by blast
qed

lemma inventory_in_range:
  assumes "year (utcnow_date e) < MAXYEAR"
  shows "\<exists>ds. get_all_dates_with_data_for_ticker self e ticker timeperiod_per_file = Inr ds"
  using dates_loop_in_range [OF assms]
  by (simp add: get_all_dates_with_data_for_ticker_def create_list_dates_for_timeperiod_def
      Let_def)

lemma month_after_day_ge2: "2 \<le> day d \<Longrightarrow> 2 \<le> day (month_after d)"
  by (simp add: month_after_def day_def days_in_month_def)

lemma dates_from_monthly_day_ge2:
  "2 \<le> day c \<Longrightarrow> x \<in> set (dates_from c e ''monthly'') \<Longrightarrow> 2 \<le> day x"
proof (induction c e "''monthly''" rule: dates_from.induct)
  case (1 c e)
  show ?case
  proof (cases "c \<le> e")
    case True
    have "2 \<le> day (date_after ''monthly'' c)"
      using 1(2) by (simp add: date_after_def month_after_day_ge2)
    with 1 True show ?thesis by (auto simp: dates_from_step)
  next
    case False
    with 1 show ?thesis by (simp add: dates_from_empty)
  qed
qed

text \<open>
  At monthly granularity, a start date that is not clamped by the floor and is not
  the 1st of its month makes the subtraction of the inventory void, whatever is on
  disk: the pending dates are those of a call with \<^verbatim>\<open>is_to_update_existing=True\<close>.
\<close>

lemma monthly_pending_ignores_inventory:
  assumes "get_min_start_date_for_ticker self e ticker \<le> date_start"
    and "2 \<le> day date_start"
  shows "list_dates_cleared self e ticker date_start date_end ''monthly'' False
         = list_dates_cleared self e ticker date_start date_end ''monthly'' True"
proof (cases "create_list_dates_for_timeperiod date_start date_end ''monthly''")
  case (Inl err)
  with assms(1) show ?thesis
    by (simp add: list_dates_cleared_def Let_def not_less [symmetric])
next
  case (Inr l)
  show ?thesis
  proof (cases "get_all_dates_with_data_for_ticker self e ticker ''monthly''")
    case (Inl err)
    with assms(1) Inr show ?thesis
      by (simp add: list_dates_cleared_def Let_def not_less [symmetric])
  next
    case inv: (Inr ds)
    from Inr obtain date_end' where "date_end = Some date_end'"
      and "dates_loop date_start date_end' ''monthly'' = Inr l"
      by (auto simp: create_list_dates_for_timeperiod_def split: option.splits)
    then have l: "l = dates_from date_start date_end' ''monthly''"
      using dates_loop_Inr by blast
    have "\<forall>x \<in> set l. x \<notin> set ds"
    proof
      fix x assume "x \<in> set l"
      with assms(2) l have "2 \<le> day x" using dates_from_monthly_day_ge2 by blast
      with inventory_monthly_day1 [OF inv] show "x \<notin> set ds" by auto
    qed
    then have "filter (\<lambda>date_obj. date_obj \<notin> set ds) l = l"
      by (simp add: filter_id_conv)
    with assms(1) Inr inv show ?thesis
      by (simp add: list_dates_cleared_def Let_def not_less [symmetric])
  qed
qed

text \<open>
  C5. A second run with \<^verbatim>\<open>is_to_update_existing=False\<close> should fetch nothing that
  the first run saved. The inventory lists the months from 2017-01-01 on, all on
  the 1st, while the plan keeps the day of the start date. For the start date
  2024-01-15 and the end date 2024-02-29 the plan is the 15th of January and of
  February; the two files of these months are on disk, under the names the dumper
  gives to these two dates, and the second run still has both dates pending.
\<close>

theorem second_run_refetches_example:
  "list_dates_cleared example_dumper
     \<lparr>utcnow_date = (2024, 3, 5), today = (2024, 3, 5),
      available_files = (\<lambda>prefix. Inr [''data/spot/monthly/klines/BTCUSDT/1m/BTCUSDT-1m-2017-08.zip'']),
      local_files = {''data/spot/monthly/klines/BTCUSDT/1m/BTCUSDT-1m-2024-01.csv'',
                     ''data/spot/monthly/klines/BTCUSDT/1m/BTCUSDT-1m-2024-02.csv''}\<rparr>
     ''BTCUSDT'' (2024, 1, 15) (Some (2024, 2, 29)) ''monthly'' False
   = Inr [(2024, 1, 15), (2024, 2, 15)]
   \<and> map (\<lambda>date_obj. os_path_join (get_local_dir_to_data example_dumper ''BTCUSDT'' ''monthly'')
                (create_filename example_dumper ''BTCUSDT'' date_obj ''monthly'' ''csv''))
         [(2024, 1, 15), (2024, 2, 15)]
     = [''data/spot/monthly/klines/BTCUSDT/1m/BTCUSDT-1m-2024-01.csv'',
        ''data/spot/monthly/klines/BTCUSDT/1m/BTCUSDT-1m-2024-02.csv'']"
proof -
  let ?e = "\<lparr>utcnow_date = (2024, 3, 5), today = (2024, 3, 5),
      available_files = (\<lambda>prefix. Inr [''data/spot/monthly/klines/BTCUSDT/1m/BTCUSDT-1m-2017-08.zip'']),
      local_files = {''data/spot/monthly/klines/BTCUSDT/1m/BTCUSDT-1m-2024-01.csv'',
                     ''data/spot/monthly/klines/BTCUSDT/1m/BTCUSDT-1m-2024-02.csv''}\<rparr>"
  have floor: "get_min_start_date_for_ticker example_dumper ?e ''BTCUSDT'' = (2017, 8, 1)"
    by (simp add: get_min_start_date_for_ticker_def Let_def first_day_of_month_def
        year_def month_def parse_simps)
  have eq: "list_dates_cleared example_dumper ?e ''BTCUSDT'' (2024, 1, 15) (Some (2024, 2, 29))
          ''monthly'' False
        = list_dates_cleared example_dumper ?e ''BTCUSDT'' (2024, 1, 15) (Some (2024, 2, 29))
          ''monthly'' True"
    by (rule monthly_pending_ignores_inventory) (simp_all add: floor day_def)
  have plan: "create_list_dates_for_timeperiod (2024, 1, 15) (Some (2024, 2, 29)) ''monthly''
      = Inr [(2024, 1, 15), (2024, 2, 15)]"
    by (simp add: create_list_dates_for_timeperiod_def dates_loop.simps date_simps)
  have "year (utcnow_date ?e) < MAXYEAR" by (simp add: MAXYEAR_def year_def)
  then obtain ds where
    inv: "get_all_dates_with_data_for_ticker example_dumper ?e ''BTCUSDT'' ''monthly'' = Inr ds"
    using inventory_in_range by blast
  have pend: "list_dates_cleared example_dumper ?e ''BTCUSDT'' (2024, 1, 15)
      (Some (2024, 2, 29)) ''monthly'' True = Inr [(2024, 1, 15), (2024, 2, 15)]"
    using plan inv by (simp add: list_dates_cleared_def Let_def floor)
  have files: "map (\<lambda>date_obj. os_path_join (get_local_dir_to_data example_dumper ''BTCUSDT'' ''monthly'')
                (create_filename example_dumper ''BTCUSDT'' date_obj ''monthly'' ''csv''))
         [(2024, 1, 15), (2024, 2, 15)]
     = [''data/spot/monthly/klines/BTCUSDT/1m/BTCUSDT-1m-2024-01.csv'',
        ''data/spot/monthly/klines/BTCUSDT/1m/BTCUSDT-1m-2024-02.csv'']"
    by (simp add: path_simps filename_simps example_dumper_eq year_def month_def)
  from eq pend files show ?thesis by simp
qed

section \<open>The split of a run into a monthly and a daily pass\<close>

text \<open>
  The day before the first day of a month is the last date before it. For a data
  type with monthly files and two dates that \<^verbatim>\<open>dump_data\<close> does not clamp, every
  date of the interval lies in exactly one of the two passes, unless the start date
  is the day before the first day of the end date's month.
\<close>

lemma first_day_predecessor:
  assumes "valid_date d" and "1 \<le> month b" and "month b \<le> 12" and "day b = 1"
    and "1 \<le> year b"
  shows "d < b \<longleftrightarrow> d \<le> sub_days1 b"
proof -
  obtain y m dd where d: "d = (y, m, dd)" by (cases d) auto
  obtain yb mb db where b: "b = (yb, mb, db)" by (cases b) auto
  from assms(1) have v: "1 \<le> m" "m \<le> 12" "1 \<le> dd" "dd \<le> days_in_month y m"
    by (simp_all add: d valid_date_def year_def month_def day_def)
  have dim: "days_in_month y m \<le> 31" by (rule days_in_month_le)
  show ?thesis
  proof (cases "mb = 1")
    case True
    with assms v dim show ?thesis
      by (auto simp: d b sub_days1_def year_def month_def day_def)
  next
    case False
    with assms v show ?thesis
      apply (auto simp: d b sub_days1_def year_def month_def day_def)
      apply (subgoal_tac "m = mb - 1"; simp)
      done
  qed
qed

lemma dump_data_passes_cover:
  assumes "data_type self \<noteq> ''metrics''"
    and "(2017, 1, 1) \<le> date_start" and "date_end \<le> sub_days1 (utcnow_date e)"
    and "valid_date date_start" and "valid_date date_end" and "valid_date d"
    and "1 \<le> year date_end"
    and "date_start \<le> d" and "d \<le> date_end"
    and "sub_days1 (first_day_of_month date_end) \<noteq> date_start"
  shows "length (filter (\<lambda>(timeperiod_per_file, a, b). a \<le> d \<and> d \<le> b)
           (dump_data_passes self e (Some date_start) (Some date_end))) = 1"
proof -
  let ?b = "first_day_of_month date_end"
  have bm: "1 \<le> month ?b" "month ?b \<le> 12" "day ?b = 1" "1 \<le> year ?b"
    using assms(5,7) by (simp_all add: first_day_of_month_def valid_date_def year_def month_def day_def)
  note pd = first_day_predecessor [OF assms(6) bm]
  note ps = first_day_predecessor [OF assms(4) bm]
  have be: "?b \<le> date_end"
    using assms(5) by (cases date_end) (simp add: first_day_of_month_def valid_date_def year_def month_def day_def)
  have passes: "dump_data_passes self e (Some date_start) (Some date_end)
      = (if sub_days1 ?b > date_start then [(''monthly'', date_start, sub_days1 ?b)] else [])
        @ [(''daily'', ?b, date_end)]"
    using assms(1,2,3) by (simp add: dump_data_passes_def Let_def not_less [symmetric])
  show ?thesis
  proof (cases "sub_days1 ?b > date_start")
    case True
    show ?thesis
    proof (cases "d < ?b")
      case True
      with pd have "d \<le> sub_days1 ?b" by simp
      moreover from True have "\<not> ?b \<le> d" by (simp add: not_le)
      ultimately show ?thesis
        using \<open>sub_days1 ?b > date_start\<close> assms(8) by (simp add: passes)
    next
      case False
      with pd have "\<not> d \<le> sub_days1 ?b" by simp
      with False \<open>sub_days1 ?b > date_start\<close> assms(9) show ?thesis
        by (simp add: passes)
    qed
  next
    case False
    with assms(10) have "\<not> date_start \<le> sub_days1 ?b" by auto
    with ps have "?b \<le> date_start" by auto
    then have "?b \<le> d" using assms(8) by (rule order_trans)
    with False assms(9) show ?thesis by (simp add: passes)
  qed
qed

text \<open>
  C6. Every date of the clamped interval should fall in one of the two passes. The
  monthly pass is made only when the day before the first day of \<^verbatim>\<open>date_end\<close>'s
  month is strictly after \<^verbatim>\<open>date_start\<close>. With the start date 2024-02-29 and the end
  date 2024-03-10 the two are equal: there is no monthly pass, the daily pass
  starts on 2024-03-01, and 2024-02-29 is in no pass. One day earlier, the start
  date 2024-02-28 gets the monthly pass for February.
\<close>

theorem last_day_of_month_start_skips_month_example:
  "dump_data_passes example_dumper
     \<lparr>utcnow_date = (2024, 6, 15), today = (2024, 6, 15),
      available_files = (\<lambda>prefix. Inr []), local_files = {}\<rparr>
     (Some (2024, 2, 29)) (Some (2024, 3, 10))
   = [(''daily'', (2024, 3, 1), (2024, 3, 10))]
   \<and> filter (\<lambda>(timeperiod_per_file, date_start, date_end).
               date_start \<le> (2024, 2, 29) \<and> (2024, 2, 29) \<le> date_end)
        (dump_data_passes example_dumper
           \<lparr>utcnow_date = (2024, 6, 15), today = (2024, 6, 15),
            available_files = (\<lambda>prefix. Inr []), local_files = {}\<rparr>
           (Some (2024, 2, 29)) (Some (2024, 3, 10)))
     = []
   \<and> dump_data_passes example_dumper
     \<lparr>utcnow_date = (2024, 6, 15), today = (2024, 6, 15),
      available_files = (\<lambda>prefix. Inr []), local_files = {}\<rparr>
     (Some (2024, 2, 28)) (Some (2024, 3, 10))
   = [(''monthly'', (2024, 2, 28), (2024, 2, 29)), (''daily'', (2024, 3, 1), (2024, 3, 10))]"
  by (simp add: dump_data_passes_def Let_def first_day_of_month_def date_simps example_dumper_eq)

end
